theory Spec2Isabelle
  imports Complex_Main "HOL-Library.AList" "HOL-Library.Sublist"
begin

section \<open>The stock data processor: data model\<close>

text \<open>
  The program is the class \<open>StockDataProcessor\<close> of \<open>data_processing.py\<close>. It talks to
  three things outside itself: the market-data provider (\<open>yfinance\<close>), the table library
  (\<open>pandas\<close>) and the file system. The provider is a parameter of the model. The table
  operations the class calls (\<open>rolling(...).mean()\<close>, \<open>pct_change()\<close>,
  \<open>rolling(...).std()\<close>, \<open>dropna\<close>, column assignment) are written out after their
  documented behaviour. The file system is a set of directories and a map from file paths
  to the table written there.

  Scope of the arithmetic: a float64 cell is a real number or NaN. Rounding, overflow and
  the infinities are not part of the model; where IEEE division by zero yields an infinity
  or NaN the model yields NaN (every rolling window that holds such a value has an
  undefined standard deviation, so the row is dropped either way).
\<close>

subsection \<open>Exceptions, log records\<close>

type_synonym path = "string list"

datatype exn =
    KeyError string
  | DataError
  | TypeError
  | OverflowError
  | FileNotFoundError path
  | NotADirectoryError path
  | FileExistsError path
  | OSError path
  | IsADirectoryError path
  | ProviderError string

datatype level = INFO | WARNING | ERROR

datatype message =
    Fetching string int int
  | CouldNotFetchTargets exn
  | ErrorFetching string exn
  | ErrorProcessing exn
  | DataSaved path
  | ErrorSaving exn
  | PipelineFailed string exn

text \<open>A statement that may raise, followed by the rest of the block.\<close>

definition bind_exn :: "exn + 'a \<Rightarrow> ('a \<Rightarrow> exn + 'b) \<Rightarrow> exn + 'b" where
  "bind_exn r k = (case r of Inl e \<Rightarrow> Inl e | Inr v \<Rightarrow> k v)"

subsection \<open>Tables\<close>

text \<open>
  A cell of a \<open>DataFrame\<close>: a number, NaN (pandas' missing value), or a string (a value
  of a non-numeric column). A table has an index (the trading dates, as day ordinals) and
  named columns in their order.
\<close>

datatype cell = Num real | NaN | Str string

type_synonym column = "cell list"

record dataframe =
  index :: "int list"
  columns :: "(string \<times> column) list"

definition wf_df :: "dataframe \<Rightarrow> bool" where
  "wf_df df \<longleftrightarrow>
     distinct (map fst (columns df)) \<and>
     list_all (\<lambda>nc. length (snd nc) = length (index df)) (columns df)"

text \<open>
  \<open>df[name]\<close>: the column, or \<open>KeyError\<close>. The statements about \<open>process_data\<close> that
  promise a result are about tables whose column names are distinct (\<open>wf_df\<close>); with two
  columns of one name the library hands back a table, not a column.
\<close>

definition get_column :: "dataframe \<Rightarrow> string \<Rightarrow> exn + column" where
  "get_column df name =
     (case map_of (columns df) name of
        None \<Rightarrow> Inl (KeyError name)
      | Some c \<Rightarrow> Inr c)"

text \<open>\<open>df[name] = col\<close>: replaces the column in place, or appends it as the last one.\<close>

definition set_column :: "dataframe \<Rightarrow> string \<Rightarrow> column \<Rightarrow> dataframe" where
  "set_column df name col = df\<lparr>columns := AList.update name col (columns df)\<rparr>"

text \<open>\<open>df[name] = v\<close> for a scalar \<open>v\<close>: the value on every row.\<close>

definition set_scalar :: "dataframe \<Rightarrow> string \<Rightarrow> cell \<Rightarrow> dataframe" where
  "set_scalar df name v = set_column df name (replicate (length (index df)) v)"

subsection \<open>Numeric columns\<close>

text \<open>
  Python's \<open>float(s)\<close> on a string is not code of this program; the model takes it as a
  parameter: \<open>None\<close> where it raises, \<open>Some None\<close> for a spelling of \<open>nan\<close>, \<open>Some (Some r)\<close>
  for a spelling of the number \<open>r\<close>. Every statement holds for every such reader.
\<close>

type_synonym float_reader = "string \<Rightarrow> real option option"

text \<open>
  A rolling aggregation converts its column to floats, NaN being \<open>None\<close>: a string that
  spells a number is read as that number, any other string makes the aggregation fail with
  \<open>DataError\<close>.
\<close>

fun read_floats :: "float_reader \<Rightarrow> column \<Rightarrow> exn + real option list" where
  "read_floats pf [] = Inr []"
| "read_floats pf (Num r # cs) =
     (case read_floats pf cs of Inl x \<Rightarrow> Inl x | Inr fs \<Rightarrow> Inr (Some r # fs))"
| "read_floats pf (NaN # cs) =
     (case read_floats pf cs of Inl x \<Rightarrow> Inl x | Inr fs \<Rightarrow> Inr (None # fs))"
| "read_floats pf (Str s # cs) =
     (case pf s of
        None \<Rightarrow> Inl DataError
      | Some v \<Rightarrow> (case read_floats pf cs of Inl x \<Rightarrow> Inl x | Inr fs \<Rightarrow> Inr (v # fs)))"

text \<open>
  Arithmetic on a column does no conversion: with a string in the column, whatever it
  spells, the division of \<open>pct_change\<close> fails with the exception given (\<open>TypeError\<close>).
\<close>

fun to_floats :: "exn \<Rightarrow> column \<Rightarrow> exn + real option list" where
  "to_floats e [] = Inr []"
| "to_floats e (Num r # cs) =
     (case to_floats e cs of Inl x \<Rightarrow> Inl x | Inr fs \<Rightarrow> Inr (Some r # fs))"
| "to_floats e (NaN # cs) =
     (case to_floats e cs of Inl x \<Rightarrow> Inl x | Inr fs \<Rightarrow> Inr (None # fs))"
| "to_floats e (Str s # cs) = Inl e"

definition float_of :: "cell \<Rightarrow> real option" where
  "float_of c = (case c of Num r \<Rightarrow> Some r | _ \<Rightarrow> None)"

definition is_str :: "cell \<Rightarrow> bool" where
  "is_str c = (case c of Str s \<Rightarrow> True | _ \<Rightarrow> False)"

definition numeric :: "column \<Rightarrow> bool" where
  "numeric col \<longleftrightarrow> list_all (\<lambda>c. \<not> is_str c) col"

text \<open>A column whose strings, if any, all spell numbers.\<close>

definition readable :: "float_reader \<Rightarrow> column \<Rightarrow> bool" where
  "readable pf col \<longleftrightarrow> list_all (\<lambda>c. case c of Str s \<Rightarrow> pf s \<noteq> None | _ \<Rightarrow> True) col"

definition of_float :: "real option \<Rightarrow> cell" where
  "of_float x = (case x of None \<Rightarrow> NaN | Some r \<Rightarrow> Num r)"

definition mean :: "real list \<Rightarrow> real option" where
  "mean xs = Some (sum_list xs / real (length xs))"

text \<open>The sample standard deviation (\<open>ddof = 1\<close>).\<close>

definition std :: "real list \<Rightarrow> real option" where
  "std xs =
     (if length xs \<le> 1 then None
      else let m = sum_list xs / real (length xs)
           in Some (sqrt (sum_list (map (\<lambda>x. (x - m)\<^sup>2) xs) / real (length xs - 1))))"

text \<open>
  \<open>rolling(window=w)\<close> with the default \<open>min_periods = w\<close>: at row \<open>i\<close> the window is the
  rows \<open>max 0 (i + 1 - w)\<close> to \<open>i\<close>; its observations are the values that are not NaN; the
  result is NaN when there are fewer than \<open>w\<close> of them, else the aggregate of the
  observations.
\<close>

definition observations :: "real option list \<Rightarrow> real list" where
  "observations xs = List.map_filter (\<lambda>x. x) xs"

definition window :: "nat \<Rightarrow> 'a list \<Rightarrow> nat \<Rightarrow> 'a list" where
  "window w xs i = drop (i + 1 - w) (take (i + 1) xs)"

definition rolling :: "nat \<Rightarrow> (real list \<Rightarrow> real option) \<Rightarrow> real option list \<Rightarrow> real option list" where
  "rolling w agg xs =
     map (\<lambda>i. let obs = observations (window w xs i)
              in if length obs < w then None else agg obs)
         [0..<length xs]"

definition rolling_mean :: "float_reader \<Rightarrow> nat \<Rightarrow> column \<Rightarrow> exn + column" where
  "rolling_mean pf w col =
     (case read_floats pf col of
        Inl e \<Rightarrow> Inl e
      | Inr xs \<Rightarrow> Inr (map of_float (rolling w mean xs)))"

definition rolling_std :: "float_reader \<Rightarrow> nat \<Rightarrow> column \<Rightarrow> exn + column" where
  "rolling_std pf w col =
     (case read_floats pf col of
        Inl e \<Rightarrow> Inl e
      | Inr xs \<Rightarrow> Inr (map of_float (rolling w std xs)))"

text \<open>
  \<open>pct_change()\<close> with its defaults (\<open>periods = 1\<close>, \<open>fill_method = 'pad'\<close>): missing values
  are filled forward, then each value is divided by the one before it, minus one. The first
  row has no predecessor and is NaN.
\<close>

fun ffill :: "real option \<Rightarrow> real option list \<Rightarrow> real option list" where
  "ffill seen [] = []"
| "ffill seen (None # xs) = seen # ffill seen xs"
| "ffill seen (Some v # xs) = Some v # ffill (Some v) xs"

definition ratio_minus_one :: "real option \<Rightarrow> real option \<Rightarrow> real option" where
  "ratio_minus_one cur prev =
     (case (cur, prev) of
        (Some a, Some b) \<Rightarrow> (if b = 0 then None else Some (a / b - 1))
      | _ \<Rightarrow> None)"

definition shift1 :: "real option list \<Rightarrow> real option list" where
  "shift1 xs = (if xs = [] then [] else None # butlast xs)"

definition pct_change :: "column \<Rightarrow> exn + column" where
  "pct_change col =
     (case to_floats TypeError col of
        Inl e \<Rightarrow> Inl e
      | Inr xs \<Rightarrow>
          (let data = ffill None xs
           in Inr (map of_float (map2 ratio_minus_one data (shift1 data)))))"

text \<open>
  \<open>dropna()\<close>: a row is kept when no column holds NaN in it. The mask has one flag for
  each row.
\<close>

definition notna :: "cell \<Rightarrow> bool" where
  "notna c \<longleftrightarrow> c \<noteq> NaN"

definition and_col :: "string \<times> column \<Rightarrow> bool list \<Rightarrow> bool list" where
  "and_col nc m = map2 (\<lambda>c b. notna c \<and> b) (snd nc) m"

definition row_mask :: "dataframe \<Rightarrow> bool list" where
  "row_mask df = foldr and_col (columns df) (replicate (length (index df)) True)"

definition select :: "bool list \<Rightarrow> 'a list \<Rightarrow> 'a list" where
  "select m xs = map snd (filter fst (zip m xs))"

definition dropna :: "dataframe \<Rightarrow> dataframe" where
  "dropna df =
     (let m = row_mask df
      in \<lparr>index = select m (index df),
          columns = map (\<lambda>nc. (fst nc, select m (snd nc))) (columns df)\<rparr>)"

text \<open>
  The derived fields, and what it means for one of them to be defined on every row of a
  table: the column is there, has a cell for each row, and each cell is a number.
\<close>

definition derived_fields :: "string list" where
  "derived_fields = [''MA5'', ''MA20'', ''Daily_Return'', ''Volatility'']"

definition field_defined :: "dataframe \<Rightarrow> string \<Rightarrow> bool" where
  "field_defined df name =
     (case map_of (columns df) name of
        None \<Rightarrow> False
      | Some c \<Rightarrow> length c = length (index df) \<and> list_all (\<lambda>x. float_of x \<noteq> None) c)"

section \<open>The processor\<close>

subsection \<open>State: the log and the file system\<close>

text \<open>
  A path is the list of its parts, as \<open>pathlib\<close> has them; \<open>[]\<close> is the working
  directory. A file holds the table handed to \<open>to_csv\<close>; the bytes of the CSV text are the
  library's and are not modelled.
\<close>

record state =
  log :: "(level \<times> message) list"
  dirs :: "path set"
  files :: "path \<rightharpoonup> dataframe"

definition logger :: "level \<Rightarrow> message \<Rightarrow> state \<Rightarrow> state" where
  "logger lv msg s = s\<lparr>log := log s @ [(lv, msg)]\<rparr>"

subsection \<open>\<open>process_data\<close>\<close>

text \<open>The body of the \<open>try\<close> block, line by line.\<close>

definition process_data_body :: "float_reader \<Rightarrow> dataframe \<Rightarrow> exn + dataframe" where
  "process_data_body pf data =
     (let processed_data = data in
      bind_exn (get_column processed_data ''Close'') (\<lambda>close.
      bind_exn (rolling_mean pf 5 close) (\<lambda>ma5.
      let processed_data = set_column processed_data ''MA5'' ma5 in
      bind_exn (get_column processed_data ''Close'') (\<lambda>close.
      bind_exn (rolling_mean pf 20 close) (\<lambda>ma20.
      let processed_data = set_column processed_data ''MA20'' ma20 in
      bind_exn (get_column processed_data ''Close'') (\<lambda>close.
      bind_exn (pct_change close) (\<lambda>daily_return.
      let processed_data = set_column processed_data ''Daily_Return'' daily_return in
      bind_exn (get_column processed_data ''Daily_Return'') (\<lambda>daily_return.
      bind_exn (rolling_std pf 20 daily_return) (\<lambda>volatility.
      let processed_data = set_column processed_data ''Volatility'' volatility in
      Inr (dropna processed_data))))))))))"

text \<open>The \<open>except\<close> clause logs the exception and raises it again.\<close>

definition process_data ::
  "float_reader \<Rightarrow> state \<Rightarrow> dataframe \<Rightarrow> (exn + dataframe) \<times> state" where
  "process_data pf s data =
     (case process_data_body pf data of
        Inl e \<Rightarrow> (Inl e, logger ERROR (ErrorProcessing e) s)
      | Inr processed_data \<Rightarrow> (Inr processed_data, s))"

subsection \<open>The provider\<close>

text \<open>
  What \<open>stock.info.get('targetMeanPrice', None)\<close> may hand back: \<open>None\<close>, an integer, a
  float, the float NaN, or a string; and Python's truth value of it, which the \<open>if\<close> tests.
\<close>

datatype pyval = PyNone | PyInt int | PyFloat real | PyNaN | PyStr string

fun truthy :: "pyval \<Rightarrow> bool" where
  "truthy PyNone = False"
| "truthy (PyInt i) = (i \<noteq> 0)"
| "truthy (PyFloat r) = (r \<noteq> 0)"
| "truthy PyNaN = True"
| "truthy (PyStr s) = (s \<noteq> [])"

fun to_cell :: "pyval \<Rightarrow> cell" where
  "to_cell PyNone = NaN"
| "to_cell (PyInt i) = Num (of_int i)"
| "to_cell (PyFloat r) = Num r"
| "to_cell PyNaN = NaN"
| "to_cell (PyStr s) = Str s"

text \<open>
  The provider and the clock: \<open>today\<close> is \<open>datetime.today()\<close> as a day ordinal (the code
  uses the date only); \<open>history\<close> is \<open>yf.Ticker(ticker).history(start, end)\<close>;
  \<open>target_mean_price\<close> is the lookup of the analyst target, which may raise.
\<close>

record provider =
  today :: int
  history :: "string \<Rightarrow> int \<Rightarrow> int \<Rightarrow> exn + dataframe"
  target_mean_price :: "string \<Rightarrow> exn + pyval"

text \<open>
  \<open>timedelta(days=n)\<close> raises \<open>OverflowError\<close> beyond 999999999 days, and a date minus a
  \<open>timedelta\<close> raises it outside the years 1 to 9999 (ordinals 1 to 3652059).
\<close>

definition timedelta :: "int \<Rightarrow> exn + int" where
  "timedelta days = (if \<bar>days\<bar> \<le> 999999999 then Inr days else Inl OverflowError)"

definition date_minus :: "int \<Rightarrow> int \<Rightarrow> exn + int" where
  "date_minus d delta =
     (if 1 \<le> d - delta \<and> d - delta \<le> 3652059 then Inr (d - delta) else Inl OverflowError)"

subsection \<open>\<open>fetch_stock_data\<close>\<close>

text \<open>
  The body of the outer \<open>try\<close>. The inner \<open>try\<close> covers the target lookup and the column
  assignment; its \<open>except\<close> logs a warning and goes on.
\<close>

definition fetch_stock_data_body ::
  "provider \<Rightarrow> state \<Rightarrow> string \<Rightarrow> int \<Rightarrow> (exn + dataframe) \<times> state" where
  "fetch_stock_data_body p s ticker days_back =
     (let end_date = today p in
      case timedelta days_back of Inl e \<Rightarrow> (Inl e, s) | Inr delta \<Rightarrow>
     (case date_minus end_date delta of Inl e \<Rightarrow> (Inl e, s) | Inr start_date \<Rightarrow>
     (let s1 = logger INFO (Fetching ticker start_date end_date) s in
      case history p ticker start_date end_date of Inl e \<Rightarrow> (Inl e, s1) | Inr hist_data \<Rightarrow>
     (case target_mean_price p ticker of
        Inl e \<Rightarrow> (Inr hist_data, logger WARNING (CouldNotFetchTargets e) s1)
      | Inr target_data \<Rightarrow>
          (if truthy target_data
           then (Inr (set_scalar hist_data ''AnalystTargetPrice'' (to_cell target_data)), s1)
           else (Inr hist_data, s1))))))"

definition fetch_stock_data ::
  "provider \<Rightarrow> state \<Rightarrow> string \<Rightarrow> int \<Rightarrow> (exn + dataframe) \<times> state" where
  "fetch_stock_data p s ticker days_back =
     (case fetch_stock_data_body p s ticker days_back of
        (Inl e, s') \<Rightarrow> (Inl e, logger ERROR (ErrorFetching ticker e) s')
      | (Inr hist_data, s') \<Rightarrow> (Inr hist_data, s'))"

subsection \<open>Paths and the constructor\<close>

text \<open>
  \<open>Path(s)\<close>: the parts between the slashes, empty parts and \<open>.\<close> left out; an absolute
  path starts with the part \<open>/\<close>. \<open>p / s\<close> appends the parts of \<open>s\<close>, or is \<open>Path(s)\<close>
  when \<open>s\<close> is absolute. The part \<open>..\<close> is kept as a name (the model does not resolve it).
\<close>

fun split_slash :: "string \<Rightarrow> string \<Rightarrow> string list" where
  "split_slash cur [] = [cur]"
| "split_slash cur (c # cs) =
     (if c = CHR ''/'' then cur # split_slash [] cs else split_slash (cur @ [c]) cs)"

definition parts :: "string \<Rightarrow> string list" where
  "parts s = filter (\<lambda>c. c \<noteq> [] \<and> c \<noteq> ''.'') (split_slash [] s)"

definition is_absolute :: "string \<Rightarrow> bool" where
  "is_absolute s = (case s of [] \<Rightarrow> False | c # cs \<Rightarrow> c = CHR ''/'')"

definition path_of :: "string \<Rightarrow> path" where
  "path_of s = (if is_absolute s then ''/'' # parts s else parts s)"

definition joinpath :: "path \<Rightarrow> string \<Rightarrow> path" where
  "joinpath p s = (if is_absolute s then path_of s else p @ parts s)"

text \<open>
  \<open>mkdir(exist_ok=True)\<close>, without \<open>parents=True\<close>: an existing directory is accepted, an
  existing file is not; the directory is made when its parent is there; otherwise the call
  fails, with \<open>NotADirectoryError\<close> when a regular file stands in the place of the parent or
  of a directory above it, and with \<open>FileNotFoundError\<close> when the parent is missing.
\<close>

definition file_above :: "state \<Rightarrow> path \<Rightarrow> bool" where
  "file_above s p = list_ex (\<lambda>k. take k p \<in> dom (files s)) [0..<length p]"

definition mkdir_exist_ok :: "state \<Rightarrow> path \<Rightarrow> (exn + unit) \<times> state" where
  "mkdir_exist_ok s p =
     (if p \<in> dirs s then (Inr (), s)
      else if p \<in> dom (files s) then (Inl (FileExistsError p), s)
      else if butlast p \<in> dirs s then (Inr (), s\<lparr>dirs := insert p (dirs s)\<rparr>)
      else if file_above s p then (Inl (NotADirectoryError p), s)
      else (Inl (FileNotFoundError p), s))"

record processor =
  data_dir :: path

text \<open>\<open>__init__\<close>. Setting up the logger changes nothing the model holds.\<close>

definition init :: "state \<Rightarrow> string \<Rightarrow> (exn + processor) \<times> state" where
  "init s dir =
     (case mkdir_exist_ok s (path_of dir) of
        (Inl e, s') \<Rightarrow> (Inl e, s')
      | (Inr u, s') \<Rightarrow> (Inr \<lparr>data_dir = path_of dir\<rparr>, s'))"

subsection \<open>\<open>save_data\<close>\<close>

text \<open>
  \<open>to_csv\<close> refuses a path whose directory does not exist, cannot open a directory as a
  file, and otherwise writes the file, replacing what was there. Other failures of the file
  system (permissions, a full disk) are not modelled.
\<close>

definition to_csv :: "state \<Rightarrow> path \<Rightarrow> dataframe \<Rightarrow> (exn + unit) \<times> state" where
  "to_csv s filename data =
     (if butlast filename \<notin> dirs s then (Inl (OSError filename), s)
      else if filename \<in> dirs s then (Inl (IsADirectoryError filename), s)
      else (Inr (), s\<lparr>files := (files s)(filename \<mapsto> data)\<rparr>))"

definition csv_path :: "processor \<Rightarrow> string \<Rightarrow> path" where
  "csv_path self ticker = joinpath (data_dir self) (ticker @ ''_stock_data.csv'')"

definition save_data :: "processor \<Rightarrow> state \<Rightarrow> dataframe \<Rightarrow> string \<Rightarrow> (exn + unit) \<times> state" where
  "save_data self s data ticker =
     (let filename = csv_path self ticker in
      case to_csv s filename data of
        (Inl e, s') \<Rightarrow> (Inl e, logger ERROR (ErrorSaving e) s')
      | (Inr u, s') \<Rightarrow> (Inr (), logger INFO (DataSaved filename) s'))"

subsection \<open>The text of the file, and reading it back\<close>

text \<open>
  Modelled from the spec: the repository has no reader of the file it writes, and the text
  of the file is the table library's. After section 6 of the specification and the
  library's documentation of \<open>to_csv\<close>, the file has a header row (the name of the index,
  \<open>Date\<close>, then the field names) and one row for each entry of the index, in order, the
  date first and then the row's value of each field; a missing value is written as nothing.
  A field of the text is taken as what it spells (a date, a number, nothing, other text):
  how a float or a date is printed and parsed is the formatting that the round trip is
  stated up to.
\<close>

datatype field = FDate int | FNum real | FEmpty | FText string

record csv =
  header :: "string list"
  rows :: "field list list"

fun field_of :: "cell \<Rightarrow> field" where
  "field_of (Num r) = FNum r"
| "field_of NaN = FEmpty"
| "field_of (Str t) = (if t = [] then FEmpty else FText t)"

definition cell_at :: "column \<Rightarrow> nat \<Rightarrow> cell" where
  "cell_at c i = (if i < length c then c ! i else NaN)"

definition csv_text :: "dataframe \<Rightarrow> csv" where
  "csv_text df =
     \<lparr>header = ''Date'' # map fst (columns df),
      rows = map (\<lambda>i. FDate (index df ! i) # map (\<lambda>nc. field_of (cell_at (snd nc) i)) (columns df))
               [0..<length (index df)]\<rparr>"

text \<open>
  Modelled from the spec: reading the file back, with the first column as the index of
  dates. The reader is modelled on the files of price series: every row as long as the
  header, a date first, and numbers or nothing in the fields. On any other file (text in a
  field, where the library decides the type of the whole column) it is \<open>None\<close>: the model
  does not say what is read.
\<close>

fun read_date :: "field \<Rightarrow> int option" where
  "read_date (FDate d) = Some d"
| "read_date _ = None"

fun read_cell :: "field \<Rightarrow> cell option" where
  "read_cell (FNum r) = Some (Num r)"
| "read_cell FEmpty = Some NaN"
| "read_cell _ = None"

definition read_row :: "nat \<Rightarrow> field list \<Rightarrow> (int \<times> cell list) option" where
  "read_row width r =
     (case r of
        [] \<Rightarrow> None
      | d # fs \<Rightarrow>
          (if length r \<noteq> width then None
           else case (read_date d, those (map read_cell fs)) of
                  (Some date, Some cells) \<Rightarrow> Some (date, cells)
                | _ \<Rightarrow> None))"

definition read_csv :: "csv \<Rightarrow> dataframe option" where
  "read_csv f =
     (case header f of
        [] \<Rightarrow> None
      | index_name # names \<Rightarrow>
          (case those (map (read_row (length (header f))) (rows f)) of
             None \<Rightarrow> None
           | Some rs \<Rightarrow>
               Some \<lparr>index = map fst rs,
                     columns = map (\<lambda>jn. (snd jn, map (\<lambda>r. snd r ! fst jn) rs))
                                 (enumerate 0 names)\<rparr>))"

subsection \<open>\<open>run_pipeline\<close>\<close>

text \<open>The call of \<open>process_data\<close> is commented out in the source; the raw table is saved.\<close>

definition run_pipeline ::
  "provider \<Rightarrow> processor \<Rightarrow> state \<Rightarrow> string \<Rightarrow> int \<Rightarrow> (exn + dataframe) \<times> state" where
  "run_pipeline p self s ticker days_back =
     (case fetch_stock_data p s ticker days_back of
        (Inl e, s1) \<Rightarrow> (Inl e, logger ERROR (PipelineFailed ticker e) s1)
      | (Inr raw_data, s1) \<Rightarrow>
          (case save_data self s1 raw_data ticker of
             (Inl e, s2) \<Rightarrow> (Inl e, logger ERROR (PipelineFailed ticker e) s2)
           | (Inr u, s2) \<Rightarrow> (Inr raw_data, s2)))"

subsection \<open>Notions used in the statements\<close>

text \<open>
  The returns that \<open>pct_change\<close> computes from a column read as floats, and the table as
  \<open>process_data\<close> has it just before \<open>dropna\<close>, when the \<open>Close\<close> column reads as \<open>xs\<close>.
\<close>

definition returns :: "real option list \<Rightarrow> real option list" where
  "returns xs = map2 ratio_minus_one (ffill None xs) (shift1 (ffill None xs))"

definition enrich :: "dataframe \<Rightarrow> real option list \<Rightarrow> dataframe" where
  "enrich df xs =
     set_column (set_column (set_column (set_column df
       ''MA5'' (map of_float (rolling 5 mean xs)))
       ''MA20'' (map of_float (rolling 20 mean xs)))
       ''Daily_Return'' (map of_float (returns xs)))
       ''Volatility'' (map of_float (rolling 20 std (returns xs)))"

text \<open>
  Row \<open>i\<close> has its full window history of \<open>w\<close> values: the window ending at \<open>i\<close> holds
  \<open>w\<close> values and none is missing. A row of the input has its full history when no field
  of the input is missing on it, its windows of 5 and of 20 closing prices are full, its
  return is defined, and its window of 20 returns is full.
\<close>

definition defined_window :: "nat \<Rightarrow> real option list \<Rightarrow> nat \<Rightarrow> bool" where
  "defined_window w xs i \<longleftrightarrow>
     length (window w xs i) = w \<and> list_all (\<lambda>x. x \<noteq> None) (window w xs i)"

definition full_history :: "dataframe \<Rightarrow> real option list \<Rightarrow> nat \<Rightarrow> bool" where
  "full_history data xs i \<longleftrightarrow>
     list_all (\<lambda>nc. fst nc \<in> set derived_fields \<or> notna (snd nc ! i)) (columns data)
     \<and> defined_window 5 xs i \<and> defined_window 20 xs i
     \<and> returns xs ! i \<noteq> None \<and> defined_window 20 (returns xs) i"

text \<open>The returns of a series without gaps: each value over the one before it, minus one.\<close>

definition pct :: "real list \<Rightarrow> real list" where
  "pct rs = map2 (\<lambda>a b. a / b - 1) (tl rs) (butlast rs)"

text \<open>A table with no missing cell: every column has a value, not NaN, for every row.\<close>

definition complete :: "dataframe \<Rightarrow> bool" where
  "complete df \<longleftrightarrow>
     list_all (\<lambda>nc. length (snd nc) = length (index df) \<and> list_all notna (snd nc)) (columns df)"

text \<open>The state before anything has run: an empty log, only the working directory.\<close>

definition initial_state :: state where
  "initial_state = \<lparr>log = [], dirs = {[]}, files = Map.empty\<rparr>"

text \<open>A series of three trading days, too short for any window of twenty.\<close>

definition three_days :: dataframe where
  "three_days = \<lparr>index = [1, 2, 3], columns = [(''Close'', [Num 10, Num 11, Num 12])]\<rparr>"

text \<open>
  The scenario of the specification: 25 consecutive trading days whose closing prices are
  100, 101, ..., 124. The other fields are not fixed by the scenario; this table takes the
  closing price for open, high and low, and a volume of 1000.
\<close>

definition closes :: "real list" where
  "closes = map real [100..<125]"

definition trading_days_25 :: dataframe where
  "trading_days_25 =
     \<lparr>index = map int [1..<26],
      columns = [(''Open'', map Num closes), (''High'', map Num closes),
                 (''Low'', map Num closes), (''Close'', map Num closes),
                 (''Volume'', replicate 25 (Num 1000))]\<rparr>"

text \<open>
  Providers for the examples: the clock stands at day 739000, the history request returns
  the table given, and the target lookup has the outcome given.
\<close>

definition example_provider :: "dataframe \<Rightarrow> exn + pyval \<Rightarrow> provider" where
  "example_provider hist target =
     \<lparr>today = 739000, history = (\<lambda>ticker start_date end_date. Inr hist),
      target_mean_price = (\<lambda>ticker. target)\<rparr>"

text \<open>
  The processor of \<open>main\<close>'s kind, on the directory \<open>stock_data\<close>, and the state once that
  directory is there.
\<close>

definition default_processor :: processor where
  "default_processor = \<lparr>data_dir = [''stock_data'']\<rparr>"

definition ready_state :: state where
  "ready_state = \<lparr>log = [], dirs = {[], [''stock_data'']}, files = Map.empty\<rparr>"

text \<open>A series with the provider's fields and no row.\<close>

definition empty_series :: dataframe where
  "empty_series =
     \<lparr>index = [],
      columns = [(''Open'', []), (''High'', []), (''Low'', []), (''Close'', []), (''Volume'', [])]\<rparr>"






text \<open>A state in which \<open>data\<close> is a regular file of the working directory.\<close>

definition file_state :: state where
  "file_state = \<lparr>log = [], dirs = {[]}, files = [[''data''] \<mapsto> three_days]\<rparr>"

text \<open>Whether a log holds a warning.\<close>

definition has_warning :: "(level \<times> message) list \<Rightarrow> bool" where
  "has_warning l = list_ex (\<lambda>entry. fst entry = WARNING) l"

text \<open>A column that holds the same value on every row; a column of rising, of falling numbers.\<close>

definition column_constant :: "dataframe \<Rightarrow> string \<Rightarrow> bool" where
  "column_constant df name =
     (case map_of (columns df) name of
        None \<Rightarrow> False
      | Some c \<Rightarrow> list_all (\<lambda>x. x = hd c) c)"

fun cell_less :: "cell \<Rightarrow> cell \<Rightarrow> bool" where
  "cell_less (Num a) (Num b) = (a < b)"
| "cell_less _ _ = False"

definition column_increasing :: "dataframe \<Rightarrow> string \<Rightarrow> bool" where
  "column_increasing df name =
     (case map_of (columns df) name of
        None \<Rightarrow> False
      | Some c \<Rightarrow> sorted_wrt cell_less c)"

definition column_decreasing :: "dataframe \<Rightarrow> string \<Rightarrow> bool" where
  "column_decreasing df name =
     (case map_of (columns df) name of
        None \<Rightarrow> False
      | Some c \<Rightarrow> sorted_wrt (\<lambda>x y. cell_less y x) c)"

section \<open>Properties of the table operations\<close>

lemma length_observations: "length (observations xs) \<le> length xs"
  by (simp add: observations_def List.map_filter_def) 

lemma length_window: "length (window w xs i) \<le> min w (Suc i)"
  by (auto simp: window_def min_def)

lemma length_rolling [simp]: "length (rolling w agg xs) = length xs"
  by (simp add: rolling_def)

lemma rolling_nth:
  "i < length xs \<Longrightarrow> rolling w agg xs ! i =
     (if length (observations (window w xs i)) < w then None else agg (observations (window w xs i)))"
  by (simp add: rolling_def Let_def)

lemma rolling_short: "i < length xs \<Longrightarrow> Suc i < w \<Longrightarrow> rolling w agg xs ! i = None"
proof -
  assume a: "i < length xs" "Suc i < w"
  have "length (observations (window w xs i)) \<le> length (window w xs i)"
    by (rule length_observations)
  also have "\<dots> \<le> min w (Suc i)" by (rule length_window)
  finally have "length (observations (window w xs i)) < w" using a by simp
  then show ?thesis using a by (simp add: rolling_nth)
qed

lemma in_select: "x \<in> set (select m xs) \<Longrightarrow> \<exists>i. i < length m \<and> i < length xs \<and> m ! i \<and> xs ! i = x"
  by (auto simp: select_def in_set_zip)

lemma length_mask_le: "length (foldr and_col cols (replicate k True)) \<le> k"
  by (induction cols) (auto simp: and_col_def)

lemma mask_sound:
  "i < length (foldr and_col cols (replicate k True)) \<Longrightarrow> foldr and_col cols (replicate k True) ! i
   \<Longrightarrow> (n, c) \<in> set cols \<Longrightarrow> i < length c \<and> notna (c ! i)"
  by (induction cols) (auto simp: and_col_def)

lemma mask_complete:
  "\<forall>(n, c) \<in> set cols. length c = k \<Longrightarrow> length (foldr and_col cols (replicate k True)) = k"
  by (induction cols) (auto simp: and_col_def)

lemma mask_nth:
  "\<forall>(n, c) \<in> set cols. length c = k \<Longrightarrow> i < k \<Longrightarrow>
    foldr and_col cols (replicate k True) ! i = (\<forall>(n, c) \<in> set cols. notna (c ! i))"
  by (induction cols) (auto simp: and_col_def mask_complete)

lemma to_floats_numeric: "numeric col \<Longrightarrow> to_floats e col = Inr (map float_of col)"
  by (induction e col rule: to_floats.induct) (auto simp: numeric_def float_of_def is_str_def)

lemma to_floats_not_numeric: "\<not> numeric col \<Longrightarrow> to_floats e col = Inl e"
  by (induction e col rule: to_floats.induct) (auto simp: numeric_def is_str_def)

lemma numeric_of_float: "numeric (map of_float xs)"
  by (induction xs) (auto simp: numeric_def of_float_def is_str_def split: option.splits)

lemma float_of_of_float [simp]: "float_of (of_float x) = x"
  by (cases x) (auto simp: float_of_def of_float_def)

lemma to_floats_of_float: "to_floats e (map of_float xs) = Inr xs"
  by (simp add: to_floats_numeric numeric_of_float comp_def)

lemma to_floats_of_float_comp: "to_floats e (map (of_float \<circ> f) ys) = Inr (map f ys)"
  using to_floats_of_float [of e "map f ys"] by simp

lemma read_floats_numeric: "numeric col \<Longrightarrow> read_floats pf col = Inr (map float_of col)"
  by (induction pf col rule: read_floats.induct) (auto simp: numeric_def float_of_def is_str_def)

lemma read_floats_unreadable: "\<not> readable pf col \<Longrightarrow> read_floats pf col = Inl DataError"
  by (induction pf col rule: read_floats.induct) (auto simp: readable_def split: option.splits)

lemma read_floats_readable: "readable pf col \<Longrightarrow> \<exists>xs. read_floats pf col = Inr xs"
  by (induction pf col rule: read_floats.induct) (auto simp: readable_def split: option.splits)

lemma read_floats_of_float: "read_floats pf (map of_float xs) = Inr xs"
  by (simp add: read_floats_numeric numeric_of_float comp_def)

lemma read_floats_of_float_comp: "read_floats pf (map (of_float \<circ> f) ys) = Inr (map f ys)"
  using read_floats_of_float [of pf "map f ys"] by simp

lemma map_of_set_column_same: "map_of (columns (set_column df n c)) n = Some c"
  by (simp add: set_column_def update_conv')

lemma map_of_set_column_other: "n \<noteq> n' \<Longrightarrow> map_of (columns (set_column df n c)) n' = map_of (columns df) n'"
  by (simp add: set_column_def update_conv')

lemma index_set_column [simp]: "index (set_column df n c) = index df"
  by (simp add: set_column_def)

lemma process_data_body_numeric:
  assumes "map_of (columns df) ''Close'' = Some close" "numeric close"
  shows "process_data_body pf df = Inr (dropna (enrich df (map float_of close)))"
  using assms
  by (simp add: process_data_body_def bind_exn_def get_column_def map_of_set_column_same
      map_of_set_column_other rolling_mean_def rolling_std_def pct_change_def to_floats_numeric
      read_floats_numeric read_floats_of_float read_floats_of_float_comp enrich_def returns_def
      Let_def)

lemma process_data_body_no_close:
  assumes "map_of (columns df) ''Close'' = None"
  shows "process_data_body pf df = Inl (KeyError ''Close'')"
  using assms by (simp add: process_data_body_def bind_exn_def get_column_def)

lemma process_data_body_text:
  assumes "map_of (columns data) ''Close'' = Some close" "\<not> numeric close"
  shows "process_data_body pf data = Inl (if readable pf close then TypeError else DataError)"
proof (cases "readable pf close")
  case False
  then show ?thesis
    using assms
    by (simp add: process_data_body_def bind_exn_def get_column_def rolling_mean_def
        read_floats_unreadable)
next
  case True
  then obtain xs where "read_floats pf close = Inr xs" using read_floats_readable by blast
  then show ?thesis
    using assms True
    by (simp add: process_data_body_def bind_exn_def get_column_def rolling_mean_def
        map_of_set_column_other pct_change_def to_floats_not_numeric Let_def)
qed

lemma mask_length_col:
  "(n, c) \<in> set cols \<Longrightarrow> length (foldr and_col cols (replicate k True)) \<le> length c"
  by (induction cols) (auto simp: and_col_def)

lemma length_select: "length m \<le> length xs \<Longrightarrow> length (select m xs) = length (filter (\<lambda>b. b) m)"
proof (induction m arbitrary: xs)
  case Nil
  then show ?case by (simp add: select_def)
next
  case (Cons b m)
  then obtain y ys where "xs = y # ys" by (cases xs) auto
  with Cons show ?case by (simp add: select_def)
qed

lemma select_drop:
  assumes "\<forall>i < min k (length m). \<not> m ! i"
  shows "select m xs = select (drop k m) (drop k xs)"
proof -
  have "zip m xs = zip (take k m) (take k xs) @ zip (drop k m) (drop k xs)"
    by (metis append_take_drop_id take_zip drop_zip)
  moreover have "filter fst (zip (take k m) (take k xs)) = []"
    using assms by (auto simp: filter_empty_conv in_set_zip)
  ultimately show ?thesis by (simp add: select_def)
qed

lemma subseq_select: "subseq (select m xs) xs"
proof -
  have "subseq (map snd (filter fst (zip m xs))) (map snd (zip m xs))"
    by (intro subseq_map subseq_filter_left)
  moreover have "subseq (map snd (zip m xs)) xs"
    by (simp add: map_snd_zip_take prefix_imp_subseq take_is_prefix)
  ultimately show ?thesis unfolding select_def by (rule subseq_order.trans)
qed

lemma columns_dropna:
  "map_of (columns (dropna df)) name = map_option (select (row_mask df)) (map_of (columns df) name)"
  by (simp add: dropna_def Let_def map_of_map [unfolded case_prod_unfold] )

lemma index_dropna: "index (dropna df) = select (row_mask df) (index df)"
  by (simp add: dropna_def Let_def)

lemma columns_dropna_set:
  "(n, c) \<in> set (columns (dropna df)) \<Longrightarrow> \<exists>c0. (n, c0) \<in> set (columns df) \<and> c = select (row_mask df) c0"
  unfolding dropna_def Let_def by (simp add: image_iff) (metis prod.collapse)

lemma dropna_lengths:
  assumes "(n, c) \<in> set (columns (dropna df))"
  shows "length c = length (index (dropna df))"
proof -
  let ?m = "row_mask df"
  from columns_dropna_set [OF assms] obtain c0 where c0: "(n, c0) \<in> set (columns df)" and c: "c = select ?m c0"
    by blast
  have "length ?m \<le> length c0"
    unfolding row_mask_def using c0 by (rule mask_length_col)
  moreover have "length ?m \<le> length (index df)"
    unfolding row_mask_def by (rule length_mask_le)
  ultimately show ?thesis by (simp add: c index_dropna length_select)
qed

lemma dropna_notna:
  assumes "(n, c) \<in> set (columns (dropna df))" "x \<in> set c"
  shows "notna x"
proof -
  let ?m = "row_mask df"
  from columns_dropna_set [OF assms(1)] obtain c0 where c0: "(n, c0) \<in> set (columns df)" and c: "c = select ?m c0"
    by blast
  from assms(2) have "x \<in> set (select ?m c0)" by (simp add: c)
  from in_select [OF this] obtain i where i: "i < length ?m" "?m ! i" "c0 ! i = x"
    by blast
  have "i < length c0 \<and> notna (c0 ! i)"
    using i(1,2) c0 unfolding row_mask_def by (rule mask_sound)
  then show ?thesis using i(3) by simp
qed

lemma mask_False:
  assumes "(n, c) \<in> set (columns df)" "i < length (row_mask df)" "c ! i = NaN"
  shows "\<not> row_mask df ! i"
proof
  assume "row_mask df ! i"
  with assms(2) have "i < length c \<and> notna (c ! i)"
    using assms(1) unfolding row_mask_def by (rule mask_sound)
  then show False using assms(3) by (simp add: notna_def)
qed

lemma index_enrich [simp]: "index (enrich df xs) = index df"
  by (simp add: enrich_def)

lemma enrich_MA5: "map_of (columns (enrich df xs)) ''MA5'' = Some (map of_float (rolling 5 mean xs))"
  by (simp add: enrich_def map_of_set_column_same map_of_set_column_other)

lemma enrich_MA20: "map_of (columns (enrich df xs)) ''MA20'' = Some (map of_float (rolling 20 mean xs))"
  by (simp add: enrich_def map_of_set_column_same map_of_set_column_other)

lemma enrich_Daily_Return: "map_of (columns (enrich df xs)) ''Daily_Return'' = Some (map of_float (returns xs))"
  by (simp add: enrich_def map_of_set_column_same map_of_set_column_other)

lemma enrich_Volatility: "map_of (columns (enrich df xs)) ''Volatility'' = Some (map of_float (rolling 20 std (returns xs)))"
  by (simp add: enrich_def map_of_set_column_same map_of_set_column_other)

lemma length_ffill [simp]: "length (ffill seen xs) = length xs"
  by (induction seen xs rule: ffill.induct) auto

lemma length_shift1 [simp]: "length (shift1 xs) = length xs"
  by (cases xs) (auto simp: shift1_def)

lemma length_returns [simp]: "length (returns xs) = length xs"
  by (simp add: returns_def)

lemma returns_first: "xs \<noteq> [] \<Longrightarrow> \<exists>t. returns xs = None # t"
proof -
  assume "xs \<noteq> []"
  then have "length (ffill None xs) \<noteq> 0" by simp
  then obtain d ds where "ffill None xs = d # ds" by (cases "ffill None xs") auto
  then show ?thesis by (cases d) (auto simp: returns_def shift1_def ratio_minus_one_def)
qed

lemma observations_None [simp]: "observations (None # xs) = observations xs"
  by (simp add: observations_def List.map_filter_def)

lemma volatility_head:
  assumes "i < length xs" "i < 20"
  shows "rolling 20 std (returns xs) ! i = None"
proof (cases "Suc i < 20")
  case True
  then show ?thesis using assms by (simp add: rolling_short)
next
  case False
  with assms have i: "i = 19" by simp
  from assms have "xs \<noteq> []" by auto
  then obtain t where t: "returns xs = None # t" using returns_first by blast
  have "window 20 (returns xs) 19 = None # take 19 t"
    by (simp add: window_def t)
  then have "length (observations (window 20 (returns xs) 19)) \<le> 19"
    using length_observations [of "take 19 t"] by simp
  then show ?thesis using assms i by (simp add: rolling_nth)
qed

lemma field_defined_dropna:
  assumes "map_of (columns E) name = Some (map of_float ys)"
  shows "field_defined (dropna E) name"
proof -
  let ?c = "select (row_mask E) (map of_float ys)"
  have col: "map_of (columns (dropna E)) name = Some ?c"
    by (simp add: columns_dropna assms)
  then have mem: "(name, ?c) \<in> set (columns (dropna E))" by (rule map_of_SomeD)
  have len: "length ?c = length (index (dropna E))" using mem by (rule dropna_lengths)
  have "float_of x \<noteq> None" if x: "x \<in> set ?c" for x
  proof -
    have "notna x" using mem x by (rule dropna_notna)
    moreover from in_select [OF x] obtain i where "i < length (map of_float ys)" "map of_float ys ! i = x"
      by blast
    then have "x = of_float (ys ! i)" by simp
    ultimately show ?thesis by (cases "ys ! i") (auto simp: notna_def of_float_def float_of_def)
  qed
  then show ?thesis by (simp add: field_defined_def col len list_all_iff)
qed

lemma process_data_body_InrD:
  assumes "process_data_body pf data = Inr out"
  shows "\<exists>close. map_of (columns data) ''Close'' = Some close \<and> numeric close
           \<and> out = dropna (enrich data (map float_of close))"
proof (cases "map_of (columns data) ''Close''")
  case None
  then show ?thesis using assms by (simp add: process_data_body_no_close)
next
  case (Some close)
  show ?thesis
  proof (cases "numeric close")
    case True
    with Some assms show ?thesis by (simp add: process_data_body_numeric)
  next
    case False
    with Some assms show ?thesis by (simp add: process_data_body_text)
  qed
qed

lemma process_data_InrD:
  "process_data pf s data = (Inr out, s') \<Longrightarrow> process_data_body pf data = Inr out \<and> s' = s"
  by (auto simp: process_data_def split: sum.splits)

lemma enrich_head_dropped:
  assumes "i < min 20 (length (row_mask (enrich df xs)))"
  shows "\<not> row_mask (enrich df xs) ! i"
proof -
  let ?E = "enrich df xs"
  let ?c = "map of_float (rolling 20 std (returns xs))"
  have mem: "(''Volatility'', ?c) \<in> set (columns ?E)"
    using enrich_Volatility by (rule map_of_SomeD)
  have "length (row_mask ?E) \<le> length ?c"
    unfolding row_mask_def using mem by (rule mask_length_col)
  with assms have i: "i < length xs" "i < 20" by auto
  then have "?c ! i = NaN" by (simp add: volatility_head of_float_def)
  with mem show ?thesis using assms by (intro mask_False [of _ ?c]) auto
qed

lemma update_set: "(n, c) \<in> set (AList.update k v al) \<Longrightarrow> (n, c) = (k, v) \<or> (n, c) \<in> set al"
  by (induction al) (auto split: if_splits)

lemma set_column_set:
  "(n, c) \<in> set (columns (set_column df k v)) \<Longrightarrow> (n, c) = (k, v) \<or> (n, c) \<in> set (columns df)"
  using update_set [of n c k v "columns df"] by (simp add: set_column_def)

lemma columns_enrich_set:
  assumes "(n, c) \<in> set (columns (enrich df xs))"
  shows "(n, c) \<in> set (columns df)
       \<or> c = map of_float (rolling 5 mean xs)
       \<or> c = map of_float (rolling 20 mean xs)
       \<or> c = map of_float (returns xs)
       \<or> c = map of_float (rolling 20 std (returns xs))"
  using assms unfolding enrich_def Let_def returns_def [symmetric]
  by (blast dest: set_column_set)

lemma observations_Some [simp]: "observations (map Some rs) = rs"
  by (induction rs) (auto simp: observations_def List.map_filter_def)

lemma window_map: "window w (map f xs) i = map f (window w xs i)"
  by (simp add: window_def take_map drop_map)

lemma length_window_full: "i < length xs \<Longrightarrow> w \<le> Suc i \<Longrightarrow> length (window w xs i) = w"
  by (simp add: window_def)

lemma rolling_Some:
  assumes "i < length rs" "w \<le> Suc i"
  shows "rolling w agg (map Some rs) ! i = agg (window w rs i)"
  using assms by (simp add: rolling_nth window_map length_window_full)

lemma window_Cons: "w \<le> Suc i \<Longrightarrow> window w (x # xs) (Suc i) = window w xs i"
  by (simp add: window_def Suc_diff_le)

lemma rolling_Cons:
  assumes "i < length xs" "w \<le> Suc i"
  shows "rolling w agg (x # xs) ! Suc i = rolling w agg xs ! i"
  using assms by (simp add: rolling_nth window_Cons)

lemma ffill_Some [simp]: "ffill seen (map Some rs) = map Some rs"
  by (induction rs arbitrary: seen) auto

lemma map2_ratio_Some:
  "0 \<notin> set bs \<Longrightarrow> map2 ratio_minus_one (map Some as) (map Some bs) = map Some (map2 (\<lambda>a b. a / b - 1) as bs)"
proof (induction as arbitrary: bs)
  case Nil
  then show ?case by simp
next
  case (Cons a as)
  then show ?case by (cases bs) (auto simp: ratio_minus_one_def)
qed

lemma returns_Some:
  assumes "rs \<noteq> []" "0 \<notin> set rs"
  shows "returns (map Some rs) = None # map Some (pct rs)"
proof -
  from assms(1) obtain r t where rs: "rs = r # t" by (cases rs) auto
  have "0 \<notin> set (butlast rs)" using assms(2) by (meson in_set_butlastD)
  then have tl: "map2 ratio_minus_one (map Some t) (map Some (butlast rs)) = map Some (pct rs)"
    by (simp add: map2_ratio_Some pct_def rs)
  have "shift1 (map Some rs) = None # map Some (butlast rs)"
    using assms(1) by (simp add: shift1_def map_butlast)
  then have "returns (map Some rs)
      = map2 ratio_minus_one (Some r # map Some t) (None # map Some (butlast rs))"
    by (simp add: returns_def rs)
  also have "\<dots> = None # map2 ratio_minus_one (map Some t) (map Some (butlast rs))"
    by (simp add: ratio_minus_one_def)
  finally show ?thesis by (simp add: tl)
qed

lemma length_pct [simp]: "length (pct rs) = length rs - 1"
  by (simp add: pct_def)

lemma mean_Some: "mean ys \<noteq> None"
  by (simp add: mean_def)

lemma std_Some: "2 \<le> length ys \<Longrightarrow> std ys \<noteq> None"
  by (simp add: std_def Let_def)

lemma of_float_notna: "notna (of_float x) \<longleftrightarrow> x \<noteq> None"
  by (cases x) (auto simp: notna_def of_float_def)

lemma volatility_tail:
  assumes "i < length rs" "20 \<le> i" "0 \<notin> set rs"
  shows "rolling 20 std (returns (map Some rs)) ! i \<noteq> None"
proof -
  from assms obtain j where j: "i = Suc j" "19 \<le> j" by (cases i) auto
  from assms have ne: "rs \<noteq> []" by auto
  have jl: "j < length (pct rs)" using assms j by simp
  have "rolling 20 std (returns (map Some rs)) ! i = rolling 20 std (map Some (pct rs)) ! j"
    using jl j by (simp add: returns_Some [OF ne assms(3)] rolling_Cons)
  also have "\<dots> = std (window 20 (pct rs) j)"
    using jl j by (simp add: rolling_Some)
  finally show ?thesis using jl j by (simp add: std_Some length_window_full)
qed

lemma returns_tail:
  assumes "i < length rs" "1 \<le> i" "0 \<notin> set rs"
  shows "returns (map Some rs) ! i \<noteq> None"
proof -
  from assms obtain j where j: "i = Suc j" by (cases i) auto
  from assms have ne: "rs \<noteq> []" by auto
  show ?thesis using assms j by (simp add: returns_Some [OF ne assms(3)])
qed

lemma select_drop_all:
  assumes "length m = length xs" "\<And>i. i < length m \<Longrightarrow> m ! i = (k \<le> i)"
  shows "select m xs = drop k xs"
proof -
  have "select m xs = select (drop k m) (drop k xs)"
    by (rule select_drop) (simp add: assms(2))
  moreover have "drop k m = replicate (length m - k) True"
    by (rule nth_equalityI) (auto simp: assms(2))
  moreover have "select (replicate (length ys) True) ys = ys" for ys :: "'a list"
    by (induction ys) (auto simp: select_def)
  ultimately show ?thesis using assms(1) by (metis length_drop)
qed

lemma complete_mask:
  assumes "complete data" "map_of (columns data) ''Close'' = Some (map Num rs)" "0 \<notin> set rs"
  shows "length (row_mask (enrich data (map Some rs))) = length (index data)"
    and "i < length (index data) \<Longrightarrow> row_mask (enrich data (map Some rs)) ! i = (20 \<le> i)"
proof -
  let ?xs = "map Some rs"
  let ?E = "enrich data ?xs"
  let ?n = "length (index data)"
  have "(''Close'', map Num rs) \<in> set (columns data)"
    using assms(2) by (rule map_of_SomeD)
  with assms(1) have n: "length rs = ?n"
    by (auto simp: complete_def list_all_iff)
  have orig: "length c = ?n \<and> (\<forall>x \<in> set c. notna x)" if "(nm, c) \<in> set (columns data)" for nm c
    using assms(1) that by (auto simp: complete_def list_all_iff)
  have len: "\<forall>(nm, c) \<in> set (columns ?E). length c = length (index ?E)"
    using orig n by (auto dest!: columns_enrich_set)
  show "length (row_mask ?E) = ?n"
    unfolding row_mask_def using mask_complete [OF len] by simp
  assume i: "i < ?n"
  show "row_mask ?E ! i = (20 \<le> i)"
  proof (cases "20 \<le> i")
    case False
    then have "i < min 20 (length (row_mask ?E))"
      using i \<open>length (row_mask ?E) = ?n\<close> by simp
    then show ?thesis using False enrich_head_dropped by blast
  next
    case True
    have "notna (c ! i)" if mem: "(nm, c) \<in> set (columns ?E)" for nm c
    proof -
      from columns_enrich_set [OF mem] consider
          "(nm, c) \<in> set (columns data)"
        | "c = map of_float (rolling 5 mean ?xs)"
        | "c = map of_float (rolling 20 mean ?xs)"
        | "c = map of_float (returns ?xs)"
        | "c = map of_float (rolling 20 std (returns ?xs))" by blast
      then show ?thesis
      proof cases
        case 1
        then show ?thesis using orig [OF 1] i by simp
      next
        case 2
        then show ?thesis using i n True by (simp add: of_float_notna rolling_Some mean_Some)
      next
        case 3
        then show ?thesis using i n True by (simp add: of_float_notna rolling_Some mean_Some)
      next
        case 4
        then show ?thesis using i n True returns_tail [of i rs] assms(3) by (simp add: of_float_notna)
      next
        case 5
        then show ?thesis using i n True volatility_tail [of i rs] assms(3) by (simp add: of_float_notna)
      qed
    qed
    then have "\<forall>(nm, c) \<in> set (columns ?E). notna (c ! i)" by blast
    moreover have "i < length (index ?E)" using i by simp
    ultimately show ?thesis
      unfolding row_mask_def using mask_nth [OF len, of i] True by simp
  qed
qed

lemma dropna_complete:
  assumes "complete data" "map_of (columns data) ''Close'' = Some (map Num rs)" "0 \<notin> set rs"
  shows "dropna (enrich data (map Some rs)) =
    \<lparr>index = drop 20 (index data),
     columns = map (\<lambda>nc. (fst nc, drop 20 (snd nc))) (columns (enrich data (map Some rs)))\<rparr>"
proof -
  let ?E = "enrich data (map Some rs)"
  let ?m = "row_mask ?E"
  note m = complete_mask [OF assms]
  have idx: "select ?m (index ?E) = drop 20 (index data)"
    using m by (simp add: select_drop_all [of ?m "index data" 20])
  have "(''Close'', map Num rs) \<in> set (columns data)"
    using assms(2) by (rule map_of_SomeD)
  with assms(1) have n: "length rs = length (index data)"
    by (auto simp: complete_def list_all_iff)
  have "length c = length ?m" if "(nm, c) \<in> set (columns ?E)" for nm c
    using columns_enrich_set [OF that] assms(1) n m(1)
    by (auto simp: complete_def list_all_iff)
  then have "select ?m (snd nc) = drop 20 (snd nc)" if "nc \<in> set (columns ?E)" for nc
    using that m by (cases nc) (simp add: select_drop_all [of ?m _ 20])
  then have "map (\<lambda>nc. (fst nc, select ?m (snd nc))) (columns ?E)
           = map (\<lambda>nc. (fst nc, drop 20 (snd nc))) (columns ?E)"
    by simp
  with idx show ?thesis by (simp add: dropna_def Let_def)
qed

lemma numeric_Num [simp]: "numeric (map Num rs)"
  by (simp add: numeric_def list_all_iff is_str_def)

lemma float_of_Num: "map float_of (map Num rs) = map Some rs"
  by (simp add: float_of_def)

lemma process_data_body_complete:
  assumes "complete data" "map_of (columns data) ''Close'' = Some (map Num rs)" "0 \<notin> set rs"
  shows "process_data_body pf data = Inr
    \<lparr>index = drop 20 (index data),
     columns = map (\<lambda>nc. (fst nc, drop 20 (snd nc))) (columns (enrich data (map Some rs)))\<rparr>"
  using process_data_body_numeric [OF assms(2)] dropna_complete [OF assms]
  by (simp only: float_of_Num numeric_Num)

lemma rolling_map_Some:
  "rolling w agg (map Some rs) = map (\<lambda>i. if Suc i < w then None else agg (window w rs i)) [0..<length rs]"
  by (rule nth_equalityI) (simp_all add: rolling_short rolling_Some not_less)

lemma scenario_ma5: "drop 20 (rolling 5 mean (map Some closes)) = map Some [118, 119, 120, 121, 122]"
  unfolding rolling_map_Some
  by (simp add: closes_def window_def mean_def drop_map upt_rec [of "numeral _"] upt_rec [of 0])

lemma scenario_ma20: "drop 20 (rolling 20 mean (map Some closes)) = map Some [221/2, 223/2, 225/2, 227/2, 229/2]"
  unfolding rolling_map_Some
  by (simp add: closes_def window_def mean_def drop_map upt_rec [of "numeral _"] upt_rec [of 0])

lemma scenario_returns: "drop 20 (returns (map Some closes)) = map Some [1/119, 1/120, 1/121, 1/122, 1/123]"
proof -
  have "closes \<noteq> []" "0 \<notin> set closes" by (auto simp: closes_def)
  then have "returns (map Some closes) = None # map Some (pct closes)" by (rule returns_Some)
  then show ?thesis by (simp add: closes_def pct_def)
qed

lemma enrich_other:
  "name \<notin> set derived_fields \<Longrightarrow> map_of (columns (enrich df xs)) name = map_of (columns df) name"
  by (simp add: derived_fields_def enrich_def map_of_set_column_other [OF not_sym])

lemma map_of_drop_columns:
  "map_of (map (\<lambda>nc. (fst nc, drop k (snd nc))) cols) name = map_option (drop k) (map_of cols name)"
  by (induction cols) auto

lemma process_data_complete:
  assumes "complete data" "map_of (columns data) ''Close'' = Some (map Num rs)" "0 \<notin> set rs"
  shows "\<exists>out. process_data pf s data = (Inr out, s)
           \<and> index out = drop 20 (index data)
           \<and> (\<forall>name. map_of (columns out) name
                 = map_option (drop 20) (map_of (columns (enrich data (map Some rs))) name))"
  using process_data_body_complete [OF assms]
  by (simp add: process_data_def map_of_drop_columns)

lemma length_closes: "length closes = 25"
  by (simp add: closes_def)

lemma closes_nonzero: "0 \<notin> set closes"
  by (auto simp: closes_def)

lemma complete_length:
  assumes "complete data" "map_of (columns data) name = Some c"
  shows "length c = length (index data)"
proof -
  have "(name, c) \<in> set (columns data)" using assms(2) by (rule map_of_SomeD)
  with assms(1) show ?thesis by (auto simp: complete_def list_all_iff)
qed

lemma notna_Num [simp]: "list_all notna (map Num rs)"
  by (simp add: list_all_iff notna_def)

lemma complete_trading_days_25: "complete trading_days_25"
  by (simp add: complete_def trading_days_25_def length_closes notna_def list_all_iff)

lemma close_trading_days_25: "map_of (columns trading_days_25) ''Close'' = Some (map Num closes)"
  by (simp add: trading_days_25_def)

lemma of_float_Some: "map of_float (map Some rs) = map Num rs"
  by (simp add: of_float_def)

lemma scenario_columns:
  assumes "complete data" "map_of (columns data) ''Close'' = Some (map Num closes)"
  shows "\<exists>out. process_data pf s data = (Inr out, s)
     \<and> map_of (columns out) ''Daily_Return'' = Some (map Num [1/119, 1/120, 1/121, 1/122, 1/123])
     \<and> map_of (columns out) ''MA5'' = Some (map Num [118, 119, 120, 121, 122])
     \<and> map_of (columns out) ''MA20'' = Some (map Num [221/2, 223/2, 225/2, 227/2, 229/2])"
proof -
  from process_data_complete [OF assms closes_nonzero, of pf s] obtain out where
    run: "process_data pf s data = (Inr out, s)"
    and cols: "\<And>name. map_of (columns out) name
                 = map_option (drop 20) (map_of (columns (enrich data (map Some closes))) name)"
    by blast
  have "map_of (columns out) ''Daily_Return'' = Some (map of_float (drop 20 (returns (map Some closes))))"
    by (simp add: cols enrich_Daily_Return drop_map)
  then have dr: "map_of (columns out) ''Daily_Return'' = Some (map Num [1/119, 1/120, 1/121, 1/122, 1/123])"
    by (simp only: scenario_returns of_float_Some)
  have "map_of (columns out) ''MA5'' = Some (map of_float (drop 20 (rolling 5 mean (map Some closes))))"
    by (simp add: cols enrich_MA5 drop_map)
  then have ma5: "map_of (columns out) ''MA5'' = Some (map Num [118, 119, 120, 121, 122])"
    by (simp only: scenario_ma5 of_float_Some)
  have "map_of (columns out) ''MA20'' = Some (map of_float (drop 20 (rolling 20 mean (map Some closes))))"
    by (simp add: cols enrich_MA20 drop_map)
  then have ma20: "map_of (columns out) ''MA20'' = Some (map Num [221/2, 223/2, 225/2, 227/2, 229/2])"
    by (simp only: scenario_ma20 of_float_Some)
  from run dr ma5 ma20 show ?thesis by blast
qed

lemma files_logger [simp]: "files (logger lv msg s) = files s"
  by (simp add: logger_def)

lemma dirs_logger [simp]: "dirs (logger lv msg s) = dirs s"
  by (simp add: logger_def)

lemma log_logger [simp]: "log (logger lv msg s) = log s @ [(lv, msg)]"
  by (simp add: logger_def)

lemma save_data_InrD:
  assumes "save_data self s data ticker = (Inr u, s')"
  shows "files s' (csv_path self ticker) = Some data"
    and "log s' = log s @ [(INFO, DataSaved (csv_path self ticker))]"
    and "dirs s' = dirs s"
  using assms
  by (auto simp: save_data_def to_csv_def Let_def split: if_splits)

lemma fetch_body_files: "files (snd (fetch_stock_data_body p s ticker days_back)) = files s"
  by (simp add: fetch_stock_data_body_def Let_def split: sum.splits)

lemma fetch_files: "fetch_stock_data p s ticker days_back = (r, s') \<Longrightarrow> files s' = files s"
  using fetch_body_files [of p s ticker days_back]
  by (auto simp: fetch_stock_data_def split: prod.splits sum.splits)

lemma process_data_body_head:
  assumes "process_data_body pf data = Inr out"
  shows "subseq (index out) (drop 20 (index data))"
proof -
  from assms obtain close where out: "out = dropna (enrich data (map float_of close))"
    using process_data_body_InrD by blast
  let ?E = "enrich data (map float_of close)"
  have "index out = select (drop 20 (row_mask ?E)) (drop 20 (index data))"
    unfolding out index_dropna
    using select_drop [of 20 "row_mask ?E" "index ?E"] enrich_head_dropped [of _ data "map float_of close"]
    by simp
  then show ?thesis by (simp add: subseq_select)
qed

lemma csv_path_default: "csv_path default_processor ''AAPL'' = [''stock_data'', ''AAPL_stock_data.csv'']"
  by (simp add: csv_path_def default_processor_def joinpath_def is_absolute_def parts_def)

lemma fetch_reached:
  assumes "timedelta days_back = Inr delta" "date_minus (today p) delta = Inr start"
    "history p ticker start (today p) = Inr hist"
  shows "fetch_stock_data p s ticker days_back =
    (case target_mean_price p ticker of
       Inl e \<Rightarrow> (Inr hist, logger WARNING (CouldNotFetchTargets e)
                   (logger INFO (Fetching ticker start (today p)) s))
     | Inr v \<Rightarrow> (Inr (if truthy v then set_scalar hist ''AnalystTargetPrice'' (to_cell v) else hist),
                   logger INFO (Fetching ticker start (today p)) s))"
  using assms
  by (simp add: fetch_stock_data_def fetch_stock_data_body_def Let_def split: sum.splits)

lemma example_dates:
  "timedelta 18 = Inr 18" "date_minus (today (example_provider hist target)) 18 = Inr 738982"
  "history (example_provider hist target) ticker 738982 (today (example_provider hist target)) = Inr hist"
  "target_mean_price (example_provider hist target) ticker = target"
  by (simp_all add: timedelta_def date_minus_def example_provider_def)

lemma fetch_example:
  "fetch_stock_data (example_provider hist target) s ticker 18 =
    (case target of
       Inl e \<Rightarrow> (Inr hist, logger WARNING (CouldNotFetchTargets e)
                   (logger INFO (Fetching ticker 738982 739000) s))
     | Inr v \<Rightarrow> (Inr (if truthy v then set_scalar hist ''AnalystTargetPrice'' (to_cell v) else hist),
                   logger INFO (Fetching ticker 738982 739000) s))"
  by (simp add: fetch_reached [OF example_dates(1-3)] example_dates(4))
    (simp add: example_provider_def split: sum.split)

lemma has_warning_append [simp]: "has_warning (l @ [(lv, msg)]) \<longleftrightarrow> has_warning l \<or> lv = WARNING"
  by (auto simp: has_warning_def list_ex_iff)

lemma index_set_scalar [simp]: "index (set_scalar df n v) = index df"
  by (simp add: set_scalar_def)

lemma map_of_set_scalar_same:
  "map_of (columns (set_scalar df n v)) n = Some (replicate (length (index df)) v)"
  by (simp add: set_scalar_def map_of_set_column_same)

lemma map_of_set_scalar_other:
  "n \<noteq> n' \<Longrightarrow> map_of (columns (set_scalar df n v)) n' = map_of (columns df) n'"
  by (simp add: set_scalar_def map_of_set_column_other)

lemma process_data_body_short:
  assumes "process_data_body pf data = Inr out" "length (index data) < 20"
  shows "index out = []" and "list_all (\<lambda>nc. snd nc = []) (columns out)"
proof -
  from process_data_body_head [OF assms(1)] assms(2) show e: "index out = []" by simp
  from assms(1) obtain close where out: "out = dropna (enrich data (map float_of close))"
    using process_data_body_InrD by blast
  have "c = []" if "(n, c) \<in> set (columns out)" for n c
    using dropna_lengths [of n c "enrich data (map float_of close)"] that e by (simp add: out)
  then show "list_all (\<lambda>nc. snd nc = []) (columns out)" by (auto simp: list_all_iff)
qed

lemma wf_df_column_length:
  assumes "wf_df df" "map_of (columns df) name = Some c"
  shows "length c = length (index df)"
proof -
  have "(name, c) \<in> set (columns df)" using assms(2) by (rule map_of_SomeD)
  with assms(1) show ?thesis by (auto simp: wf_df_def list_all_iff)
qed

lemma set_scalar_empty:
  assumes "index df = []" "list_all (\<lambda>nc. snd nc = []) (columns df)"
  shows "list_all (\<lambda>nc. snd nc = []) (columns (set_scalar df name v))"
proof -
  have "c = []" if "(n, c) \<in> set (columns (set_scalar df name v))" for n c
    using set_column_set [of n c df name "replicate (length (index df)) v"] that assms
    by (auto simp: set_scalar_def list_all_iff)
  then show ?thesis by (auto simp: list_all_iff)
qed

lemma split_slash_plain: "CHR ''/'' \<notin> set s \<Longrightarrow> split_slash cur s = [cur @ s]"
  by (induction s arbitrary: cur) auto

lemma parts_csv_name:
  assumes "CHR ''/'' \<notin> set ticker"
  shows "parts (ticker @ ''_stock_data.csv'') = [ticker @ ''_stock_data.csv'']"
proof -
  have "CHR ''/'' \<notin> set (ticker @ ''_stock_data.csv'')" using assms by simp
  then have "split_slash [] (ticker @ ''_stock_data.csv'') = [ticker @ ''_stock_data.csv'']"
    using split_slash_plain [of "ticker @ ''_stock_data.csv''" "[]"] by simp
  moreover have "length (ticker @ ''_stock_data.csv'') \<ge> 15" by simp
  then have "ticker @ ''_stock_data.csv'' \<noteq> [] \<and> ticker @ ''_stock_data.csv'' \<noteq> ''.''"
    by (metis length_Cons list.size(3) One_nat_def not_numeral_le_zero numeral_le_one_iff semiring_norm(70))
  ultimately show ?thesis by (simp add: parts_def)
qed

lemma not_absolute_csv_name:
  "CHR ''/'' \<notin> set ticker \<Longrightarrow> \<not> is_absolute (ticker @ ''_stock_data.csv'')"
  by (cases ticker) (auto simp: is_absolute_def)

lemma csv_path_plain:
  "CHR ''/'' \<notin> set ticker \<Longrightarrow> csv_path self ticker = data_dir self @ [ticker @ ''_stock_data.csv'']"
  by (simp add: csv_path_def joinpath_def not_absolute_csv_name parts_csv_name)

lemma save_data_dirs: "dirs (snd (save_data self s data ticker)) = dirs s"
  by (simp add: save_data_def to_csv_def Let_def)

lemma path_of_stock_data: "path_of ''stock_data'' = [''stock_data'']"
  by (simp add: path_of_def is_absolute_def parts_def)

lemma path_of_nested: "path_of ''data/prices'' = [''data'', ''prices'']"
  by (simp add: path_of_def is_absolute_def parts_def)

lemma select_filter_nth:
  "length m = length xs \<Longrightarrow> select m xs = map (nth xs) (filter (nth m) [0..<length m])"
proof (induction m arbitrary: xs rule: rev_induct)
  case Nil
  then show ?case by (simp add: select_def)
next
  case (snoc b m)
  then obtain ys y where xs: "xs = ys @ [y]" and len: "length m = length ys"
    by (cases xs rule: rev_cases) auto
  have f: "filter (nth (m @ [b])) [0..<length m] = filter (nth m) [0..<length m]"
    by (rule filter_cong) (auto simp: nth_append)
  have g: "map (nth (ys @ [y])) (filter (nth m) [0..<length m]) = map (nth ys) (filter (nth m) [0..<length m])"
    by (rule map_cong) (auto simp: nth_append len)
  have l: "select (m @ [b]) xs = select m ys @ (if b then [y] else [])"
    by (simp add: select_def xs len)
  have "filter (nth (m @ [b])) [0..<length (m @ [b])]
      = filter (nth m) [0..<length m] @ (if b then [length m] else [])"
    using f by simp
  then have "map (nth xs) (filter (nth (m @ [b])) [0..<length (m @ [b])])
      = map (nth ys) (filter (nth m) [0..<length m]) @ (if b then [y] else [])"
    using g by (simp add: xs len)
  with l snoc.IH [OF len] show ?case by simp
qed

lemma update_set_distinct:
  "distinct (map fst al) \<Longrightarrow>
     set (AList.update k v al) = insert (k, v) {nc \<in> set al. fst nc \<noteq> k}"
  by (induction al) (auto simp: image_iff)

lemma ball_update:
  assumes "distinct (map fst al)"
  shows "(\<forall>nc \<in> set (AList.update k v al). P nc) \<longleftrightarrow> P (k, v) \<and> (\<forall>nc \<in> set al. fst nc \<noteq> k \<longrightarrow> P nc)"
  by (auto simp: update_set_distinct [OF assms])

lemma length_observations_filter:
  "length (observations ys) = length (filter (\<lambda>x. x \<noteq> None) ys)"
  by (induction ys) (auto simp: observations_def List.map_filter_def)

lemma observations_full:
  "w \<le> length (observations (window w xs i)) \<longleftrightarrow> defined_window w xs i"
proof -
  have a: "length (observations (window w xs i)) \<le> length (window w xs i)"
    by (rule length_observations)
  have b: "length (window w xs i) \<le> w" using length_window [of w xs i] by simp
  show ?thesis
  proof
    assume h: "w \<le> length (observations (window w xs i))"
    with a b have l: "length (window w xs i) = w" by simp
    with h have "length (filter (\<lambda>x. x \<noteq> None) (window w xs i)) = length (window w xs i)"
      using a by (simp add: length_observations_filter)
    then have "\<forall>x \<in> set (window w xs i). x \<noteq> None"
      using length_filter_less [of _ "window w xs i" "\<lambda>x. x \<noteq> None"] by fastforce
    with l show "defined_window w xs i" by (simp add: defined_window_def list_all_iff)
  next
    assume "defined_window w xs i"
    then have "length (window w xs i) = w" "\<forall>x \<in> set (window w xs i). x \<noteq> None"
      by (simp_all add: defined_window_def list_all_iff)
    then show "w \<le> length (observations (window w xs i))"
      by (simp add: length_observations_filter)
  qed
qed

lemma rolling_mean_defined:
  "i < length xs \<Longrightarrow> rolling w mean xs ! i \<noteq> None \<longleftrightarrow> defined_window w xs i"
  using observations_full [of w xs i] by (auto simp: rolling_nth mean_def)

lemma rolling_std_defined:
  "i < length xs \<Longrightarrow> rolling 20 std xs ! i \<noteq> None \<longleftrightarrow> defined_window 20 xs i"
  using observations_full [of 20 xs i] by (auto simp: rolling_nth std_def Let_def)

lemma rolling_defined_value:
  "i < length xs \<Longrightarrow> defined_window w xs i \<Longrightarrow> rolling w agg xs ! i = agg (observations (window w xs i))"
  using observations_full [of w xs i] by (simp add: rolling_nth)

lemma enrich_columns_ball:
  assumes "distinct (map fst (columns data))"
  shows "(\<forall>nc \<in> set (columns (enrich data xs)). P nc) \<longleftrightarrow>
     P (''MA5'', map of_float (rolling 5 mean xs))
     \<and> P (''MA20'', map of_float (rolling 20 mean xs))
     \<and> P (''Daily_Return'', map of_float (returns xs))
     \<and> P (''Volatility'', map of_float (rolling 20 std (returns xs)))
     \<and> (\<forall>nc \<in> set (columns data). fst nc \<in> set derived_fields \<or> P nc)"
  using assms
  by (simp add: enrich_def set_column_def ball_update distinct_update derived_fields_def) blast

lemma enrich_mask_history:
  assumes "wf_df data" "map_of (columns data) ''Close'' = Some close"
  shows "length (row_mask (enrich data (map float_of close))) = length (index data)"
    and "i < length (index data) \<Longrightarrow>
         row_mask (enrich data (map float_of close)) ! i = full_history data (map float_of close) i"
proof -
  let ?xs = "map float_of close"
  let ?E = "enrich data ?xs"
  let ?n = "length (index data)"
  have d: "distinct (map fst (columns data))" using assms(1) by (simp add: wf_df_def)
  have n: "length ?xs = ?n" using wf_df_column_length [OF assms] by simp
  have orig: "length c = ?n" if "(nm, c) \<in> set (columns data)" for nm c
    using assms(1) that by (auto simp: wf_df_def list_all_iff)
  have len: "\<forall>(nm, c) \<in> set (columns ?E). length c = length (index ?E)"
    using orig n by (auto dest!: columns_enrich_set)
  show l: "length (row_mask ?E) = ?n"
    unfolding row_mask_def using mask_complete [OF len] by simp
  assume i: "i < ?n"
  then have "i < length (index ?E)" by simp
  from mask_nth [OF len this]
  have "row_mask ?E ! i = (\<forall>nc \<in> set (columns ?E). notna (snd nc ! i))"
    by (simp add: row_mask_def case_prod_unfold)
  also have "\<dots> = full_history data ?xs i"
    using i n
    by (simp add: enrich_columns_ball [OF d] full_history_def list_all_iff of_float_notna
        rolling_mean_defined rolling_std_defined del: not_None_eq) blast
  finally show "row_mask ?E ! i = full_history data ?xs i" .
qed

lemma dropna_enrich_rows:
  assumes "wf_df data" "map_of (columns data) ''Close'' = Some close"
  defines "xs \<equiv> map float_of close"
  defines "keep \<equiv> filter (full_history data xs) [0..<length (index data)]"
  defines "out \<equiv> dropna (enrich data xs)"
  shows "index out = map (nth (index data)) keep"
    and "\<And>name c. name \<notin> set derived_fields \<Longrightarrow> map_of (columns data) name = Some c \<Longrightarrow>
           map_of (columns out) name = Some (map (nth c) keep)"
    and "map_of (columns out) ''MA5''
           = Some (map (\<lambda>i. of_float (mean (observations (window 5 xs i)))) keep)"
    and "map_of (columns out) ''MA20''
           = Some (map (\<lambda>i. of_float (mean (observations (window 20 xs i)))) keep)"
    and "map_of (columns out) ''Daily_Return'' = Some (map (\<lambda>i. of_float (returns xs ! i)) keep)"
    and "map_of (columns out) ''Volatility''
           = Some (map (\<lambda>i. of_float (std (observations (window 20 (returns xs) i)))) keep)"
proof -
  let ?E = "enrich data xs"
  let ?m = "row_mask ?E"
  let ?n = "length (index data)"
  note h = enrich_mask_history [OF assms(1,2), folded xs_def]
  have n: "length xs = ?n" using wf_df_column_length [OF assms(1,2)] by (simp add: xs_def)
  have keep: "filter (nth ?m) [0..<?n] = keep"
    unfolding keep_def by (rule filter_cong) (auto simp: h(2))
  have sel: "select ?m c = map (nth c) keep" if "length c = ?n" for c :: "'a list"
    using select_filter_nth [of ?m c] that by (simp add: h(1) keep)
  have kept: "i < ?n \<and> full_history data xs i" if "i \<in> set keep" for i
    using that by (simp add: keep_def)
  show "index out = map (nth (index data)) keep"
    by (simp add: out_def index_dropna sel)
  show "map_of (columns out) name = Some (map (nth c) keep)"
    if "name \<notin> set derived_fields" "map_of (columns data) name = Some c" for name c
    using that wf_df_column_length [OF assms(1) that(2)]
    by (simp add: out_def columns_dropna enrich_other sel)
  have "map_of (columns out) ''MA5'' = Some (map (nth (map of_float (rolling 5 mean xs))) keep)"
    by (simp add: out_def columns_dropna enrich_MA5 sel n)
  also have "map (nth (map of_float (rolling 5 mean xs))) keep
      = map (\<lambda>i. of_float (mean (observations (window 5 xs i)))) keep"
    by (rule map_cong) (auto dest!: kept simp: n full_history_def rolling_defined_value)
  finally show "map_of (columns out) ''MA5''
      = Some (map (\<lambda>i. of_float (mean (observations (window 5 xs i)))) keep)" .
  have "map_of (columns out) ''MA20'' = Some (map (nth (map of_float (rolling 20 mean xs))) keep)"
    by (simp add: out_def columns_dropna enrich_MA20 sel n)
  also have "map (nth (map of_float (rolling 20 mean xs))) keep
      = map (\<lambda>i. of_float (mean (observations (window 20 xs i)))) keep"
    by (rule map_cong) (auto dest!: kept simp: n full_history_def rolling_defined_value)
  finally show "map_of (columns out) ''MA20''
      = Some (map (\<lambda>i. of_float (mean (observations (window 20 xs i)))) keep)" .
  have "map_of (columns out) ''Daily_Return'' = Some (map (nth (map of_float (returns xs))) keep)"
    by (simp add: out_def columns_dropna enrich_Daily_Return sel n)
  also have "map (nth (map of_float (returns xs))) keep = map (\<lambda>i. of_float (returns xs ! i)) keep"
    by (rule map_cong) (auto dest!: kept simp: n)
  finally show "map_of (columns out) ''Daily_Return''
      = Some (map (\<lambda>i. of_float (returns xs ! i)) keep)" .
  have "map_of (columns out) ''Volatility''
      = Some (map (nth (map of_float (rolling 20 std (returns xs)))) keep)"
    by (simp add: out_def columns_dropna enrich_Volatility sel n)
  also have "map (nth (map of_float (rolling 20 std (returns xs)))) keep
      = map (\<lambda>i. of_float (std (observations (window 20 (returns xs) i)))) keep"
    by (rule map_cong) (auto dest!: kept simp: n full_history_def rolling_defined_value)
  finally show "map_of (columns out) ''Volatility''
      = Some (map (\<lambda>i. of_float (std (observations (window 20 (returns xs) i)))) keep)" .
qed

lemma those_map_Some: "(\<And>x. x \<in> set xs \<Longrightarrow> f x = Some (g x)) \<Longrightarrow> those (map f xs) = Some (map g xs)"
  by (induction xs) auto

lemma map_fst_enumerate_fun:
  "map (\<lambda>jn. f (fst jn)) (enumerate n xs) = map f [n..<n + length xs]"
proof -
  have "map f (map fst (enumerate n xs)) = map (\<lambda>jn. f (fst jn)) (enumerate n xs)"
    by (simp only: map_map comp_def)
  then show ?thesis by (simp only: map_fst_enumerate)
qed

lemma read_cell_field_of: "\<not> is_str c \<Longrightarrow> read_cell (field_of c) = Some c"
  by (cases c) (auto simp: is_str_def)

lemma read_row_csv_text:
  assumes "wf_df df" "list_all (\<lambda>nc. numeric (snd nc)) (columns df)" "i < length (index df)"
  shows "read_row (Suc (length (columns df)))
           (FDate (index df ! i) # map (\<lambda>nc. field_of (cell_at (snd nc) i)) (columns df))
         = Some (index df ! i, map (\<lambda>nc. snd nc ! i) (columns df))"
proof -
  have "read_cell (field_of (cell_at (snd nc) i)) = Some (snd nc ! i)" if "nc \<in> set (columns df)" for nc
  proof -
    from assms(1) that have l: "length (snd nc) = length (index df)"
      by (auto simp: wf_df_def list_all_iff)
    from assms(2) that have "numeric (snd nc)" by (auto simp: list_all_iff)
    with l assms(3) have "\<not> is_str (snd nc ! i)" by (auto simp: numeric_def list_all_iff)
    with l assms(3) show ?thesis by (simp add: cell_at_def read_cell_field_of)
  qed
  then have "those (map read_cell (map (\<lambda>nc. field_of (cell_at (snd nc) i)) (columns df)))
      = Some (map (\<lambda>nc. snd nc ! i) (columns df))"
    using those_map_Some [of "columns df" "\<lambda>nc. read_cell (field_of (cell_at (snd nc) i))" "\<lambda>nc. snd nc ! i"]
    by (simp add: comp_def)
  then show ?thesis by (simp add: read_row_def)
qed

lemma read_csv_csv_text:
  assumes "wf_df df" "list_all (\<lambda>nc. numeric (snd nc)) (columns df)"
  shows "read_csv (csv_text df) = Some df"
proof -
  let ?n = "length (index df)"
  let ?cols = "columns df"
  let ?rs = "map (\<lambda>i. (index df ! i, map (\<lambda>nc. snd nc ! i) ?cols)) [0..<?n]"
  have rows: "those (map (read_row (length (header (csv_text df)))) (rows (csv_text df))) = Some ?rs"
    using those_map_Some [of "[0..<?n]"
        "\<lambda>i. read_row (Suc (length ?cols)) (FDate (index df ! i) # map (\<lambda>nc. field_of (cell_at (snd nc) i)) ?cols)"
        "\<lambda>i. (index df ! i, map (\<lambda>nc. snd nc ! i) ?cols)"]
      read_row_csv_text [OF assms]
    by (simp add: csv_text_def comp_def)
  have idx: "map fst ?rs = index df"
    by (simp add: comp_def map_nth)
  have col: "(snd jn, map (\<lambda>r. snd r ! fst jn) ?rs) = ?cols ! fst jn"
    if "jn \<in> set (enumerate 0 (map fst ?cols))" for jn
  proof -
    from that have j: "fst jn < length ?cols" and nm: "snd jn = fst (?cols ! fst jn)"
      by (auto simp: in_set_enumerate_eq)
    from assms(1) j have l: "length (snd (?cols ! fst jn)) = ?n"
      by (auto simp: wf_df_def list_all_iff)
    have "map (\<lambda>r. snd r ! fst jn) ?rs = map (\<lambda>i. snd (?cols ! fst jn) ! i) [0..<?n]"
      using j by (simp add: comp_def)
    also have "\<dots> = snd (?cols ! fst jn)"
      using l map_nth [of "snd (?cols ! fst jn)"] by simp
    finally show ?thesis by (simp add: nm)
  qed
  have "map (\<lambda>jn. (snd jn, map (\<lambda>r. snd r ! fst jn) ?rs)) (enumerate 0 (map fst ?cols))
      = map (\<lambda>jn. ?cols ! fst jn) (enumerate 0 (map fst ?cols))"
    by (rule map_cong [OF refl]) (rule col)
  also have "\<dots> = map (nth ?cols) [0..<length ?cols]"
    using map_fst_enumerate_fun [of "nth ?cols" 0 "map fst ?cols"] by simp
  also have "\<dots> = ?cols" by (rule map_nth)
  finally have cols: "map (\<lambda>jn. (snd jn, map (\<lambda>r. snd r ! fst jn) ?rs)) (enumerate 0 (map fst ?cols)) = ?cols" .
  have "header (csv_text df) = ''Date'' # map fst ?cols" by (simp add: csv_text_def)
  then show ?thesis
    unfolding read_csv_def using rows idx cols by simp
qed

section \<open>The claims\<close>

text \<open>
  C2. Whenever \<open>process_data\<close> returns a table, each of the four derived fields (\<open>MA5\<close>,
  \<open>MA20\<close>, \<open>Daily_Return\<close>, \<open>Volatility\<close>) is defined on every row of it: the column is
  there, has a cell for each row, and each cell is a number. Rows without the full window
  history are left out, not filled: the rows returned are rows of the input after its first
  twenty, in their order, and an input of fewer than twenty rows gives a table with no row.
  For a well-formed input the rows returned are exactly the rows that have their full
  history (no field missing, full windows of 5 and 20 closing prices, a return, a full
  window of 20 returns), each with the input's values; the \<open>MA5\<close> and \<open>MA20\<close> cells are
  the means of the row's windows of closing prices, the \<open>Daily_Return\<close> cell is the row's
  return, and the \<open>Volatility\<close> cell is the standard deviation of the row's window of
  returns. No cell is filled in with a value of another kind.
\<close>

theorem process_data_rows_defined:
  assumes "process_data pf s data = (Inr out, s')"
  shows "list_all (field_defined out) derived_fields
         \<and> subseq (index out) (drop 20 (index data))
         \<and> (length (index data) < 20 \<longrightarrow>
              index out = [] \<and> list_all (\<lambda>nc. snd nc = []) (columns out))
         \<and> (wf_df data \<longrightarrow>
              (\<exists>close keep. map_of (columns data) ''Close'' = Some close
                 \<and> keep = filter (full_history data (map float_of close)) [0..<length (index data)]
                 \<and> index out = map (nth (index data)) keep
                 \<and> (\<forall>name c. name \<notin> set derived_fields \<and> map_of (columns data) name = Some c
                       \<longrightarrow> map_of (columns out) name = Some (map (nth c) keep))
                 \<and> map_of (columns out) ''MA5''
                     = Some (map (\<lambda>i. of_float (mean (observations
                          (window 5 (map float_of close) i)))) keep)
                 \<and> map_of (columns out) ''MA20''
                     = Some (map (\<lambda>i. of_float (mean (observations
                          (window 20 (map float_of close) i)))) keep)
                 \<and> map_of (columns out) ''Daily_Return''
                     = Some (map (\<lambda>i. of_float (returns (map float_of close) ! i)) keep)
                 \<and> map_of (columns out) ''Volatility''
                     = Some (map (\<lambda>i. of_float (std (observations
                          (window 20 (returns (map float_of close)) i)))) keep)))"
proof -
  from assms have body: "process_data_body pf data = Inr out" by (simp add: process_data_InrD)
  then obtain close where close: "map_of (columns data) ''Close'' = Some close"
    and out: "out = dropna (enrich data (map float_of close))"
    using process_data_body_InrD by blast
  have fields: "list_all (field_defined out) derived_fields"
    unfolding derived_fields_def out
    by (simp add: field_defined_dropna [OF enrich_MA5] field_defined_dropna [OF enrich_MA20]
        field_defined_dropna [OF enrich_Daily_Return] field_defined_dropna [OF enrich_Volatility])
  have sub: "subseq (index out) (drop 20 (index data))"
    using body by (rule process_data_body_head)
  have short: "index out = [] \<and> list_all (\<lambda>nc. snd nc = []) (columns out)"
    if "length (index data) < 20"
    using process_data_body_short [OF body that] by simp
  have rows: "\<exists>close keep. map_of (columns data) ''Close'' = Some close
      \<and> keep = filter (full_history data (map float_of close)) [0..<length (index data)]
      \<and> index out = map (nth (index data)) keep
      \<and> (\<forall>name c. name \<notin> set derived_fields \<and> map_of (columns data) name = Some c
            \<longrightarrow> map_of (columns out) name = Some (map (nth c) keep))
      \<and> map_of (columns out) ''MA5''
          = Some (map (\<lambda>i. of_float (mean (observations
               (window 5 (map float_of close) i)))) keep)
      \<and> map_of (columns out) ''MA20''
          = Some (map (\<lambda>i. of_float (mean (observations
               (window 20 (map float_of close) i)))) keep)
      \<and> map_of (columns out) ''Daily_Return''
          = Some (map (\<lambda>i. of_float (returns (map float_of close) ! i)) keep)
      \<and> map_of (columns out) ''Volatility''
          = Some (map (\<lambda>i. of_float (std (observations
               (window 20 (returns (map float_of close)) i)))) keep)"
    if wf: "wf_df data"
    using close dropna_enrich_rows [OF wf close] unfolding out by blast
  from fields sub short rows show ?thesis by blast
qed

theorem process_data_rows_defined_witness:
  "\<forall>pf.
   ((\<exists>out. process_data pf initial_state three_days = (Inr out, initial_state)
      \<and> list_all (field_defined out) derived_fields
      \<and> index out = [] \<and> list_all (\<lambda>nc. snd nc = []) (columns out))
   \<and> wf_df trading_days_25
   \<and> (\<exists>out. process_data pf initial_state trading_days_25 = (Inr out, initial_state)
      \<and> list_all (field_defined out) derived_fields
      \<and> index out = [21, 22, 23, 24, 25]
      \<and> subseq (index out) (drop 20 (index trading_days_25))
      \<and> (\<exists>keep. index out = map (nth (index trading_days_25)) keep
            \<and> map_of (columns out) ''MA5''
                = Some (map (\<lambda>i. of_float (mean (observations
                     (window 5 (map Some closes) i)))) keep))))"
proof
  fix pf :: float_reader
  have "map_of (columns three_days) ''Close'' = Some [Num 10, Num 11, Num 12]"
    by (simp add: three_days_def)
  moreover have "numeric [Num 10, Num 11, Num 12]"
    by (simp add: numeric_def is_str_def)
  ultimately have "process_data_body pf three_days
      = Inr (dropna (enrich three_days (map float_of [Num 10, Num 11, Num 12])))"
    by (rule process_data_body_numeric)
  then have run: "process_data pf initial_state three_days
      = (Inr (dropna (enrich three_days (map float_of [Num 10, Num 11, Num 12]))), initial_state)"
    by (simp add: process_data_def)
  have "length (index three_days) < 20" by (simp add: three_days_def)
  with process_data_rows_defined [OF run] run have short: "\<exists>out.
      process_data pf initial_state three_days = (Inr out, initial_state)
      \<and> list_all (field_defined out) derived_fields
      \<and> index out = [] \<and> list_all (\<lambda>nc. snd nc = []) (columns out)"
    by blast
  have wf: "wf_df trading_days_25"
    by (simp add: wf_df_def trading_days_25_def length_closes)
  from process_data_complete [OF complete_trading_days_25 close_trading_days_25 closes_nonzero,
      of pf initial_state]
  obtain out where run25: "process_data pf initial_state trading_days_25 = (Inr out, initial_state)"
    and idx: "index out = drop 20 (index trading_days_25)"
    by blast
  have i25: "index out = [21, 22, 23, 24, 25]"
    by (simp add: idx trading_days_25_def drop_map upt_rec [of "numeral _"])
  note t = process_data_rows_defined [OF run25]
  from t wf obtain close keep where
    c: "map_of (columns trading_days_25) ''Close'' = Some close"
    and k: "index out = map (nth (index trading_days_25)) keep"
    and m: "map_of (columns out) ''MA5''
       = Some (map (\<lambda>i. of_float (mean (observations (window 5 (map float_of close) i)))) keep)"
    by blast
  from c have "close = map Num closes" by (simp add: close_trading_days_25)
  with m have "map_of (columns out) ''MA5''
       = Some (map (\<lambda>i. of_float (mean (observations (window 5 (map Some closes) i)))) keep)"
    by (simp only: float_of_Num)
  with k have "\<exists>keep. index out = map (nth (index trading_days_25)) keep
      \<and> map_of (columns out) ''MA5''
          = Some (map (\<lambda>i. of_float (mean (observations (window 5 (map Some closes) i)))) keep)"
    by blast
  with t run25 i25 have long: "\<exists>out.
      process_data pf initial_state trading_days_25 = (Inr out, initial_state)
      \<and> list_all (field_defined out) derived_fields
      \<and> index out = [21, 22, 23, 24, 25]
      \<and> subseq (index out) (drop 20 (index trading_days_25))
      \<and> (\<exists>keep. index out = map (nth (index trading_days_25)) keep
            \<and> map_of (columns out) ''MA5''
                = Some (map (\<lambda>i. of_float (mean (observations
                     (window 5 (map Some closes) i)))) keep))"
    by blast
  from short wf long show "(\<exists>out. process_data pf initial_state three_days = (Inr out, initial_state)
      \<and> list_all (field_defined out) derived_fields
      \<and> index out = [] \<and> list_all (\<lambda>nc. snd nc = []) (columns out))
   \<and> wf_df trading_days_25
   \<and> (\<exists>out. process_data pf initial_state trading_days_25 = (Inr out, initial_state)
      \<and> list_all (field_defined out) derived_fields
      \<and> index out = [21, 22, 23, 24, 25]
      \<and> subseq (index out) (drop 20 (index trading_days_25))
      \<and> (\<exists>keep. index out = map (nth (index trading_days_25)) keep
            \<and> map_of (columns out) ''MA5''
                = Some (map (\<lambda>i. of_float (mean (observations
                     (window 5 (map Some closes) i)))) keep)))"
    by (intro conjI)
qed

text \<open>
  C3, as amended. For a table without missing cells whose closing prices are 100, 101, ...,
  124 (25 consecutive trading days), \<open>process_data\<close> returns exactly 25 - 20 = 5 rows, the
  last 5 rows of the input: the index is the input's index after its first twenty entries,
  and each field of the input holds the input's values for those rows. (The volatility of
  row 19 needs twenty returns, and the first row has none, so row 19 is left out too.)
\<close>

theorem scenario_five_rows:
  assumes "complete data" "map_of (columns data) ''Close'' = Some (map Num closes)"
  shows "\<exists>out. process_data pf s data = (Inr out, s)
           \<and> length (index out) = 5
           \<and> index out = drop 20 (index data)
           \<and> (\<forall>name c. name \<notin> set derived_fields \<longrightarrow> map_of (columns data) name = Some c
                 \<longrightarrow> map_of (columns out) name = Some (drop 20 c))"
proof -
  from process_data_complete [OF assms closes_nonzero, of pf s] obtain out where
    run: "process_data pf s data = (Inr out, s)" and idx: "index out = drop 20 (index data)"
    and cols: "\<And>name. map_of (columns out) name
                 = map_option (drop 20) (map_of (columns (enrich data (map Some closes))) name)"
    by blast
  have "length (index data) = 25"
    using complete_length [OF assms] by (simp add: length_closes)
  then have "length (index out) = 5" by (simp add: idx)
  moreover have "map_of (columns out) name = Some (drop 20 c)"
    if "name \<notin> set derived_fields" "map_of (columns data) name = Some c" for name c
    using that by (simp add: cols enrich_other)
  ultimately show ?thesis using run idx by blast
qed

theorem scenario_five_rows_witness:
  "\<forall>pf.
   (\<exists>out. process_data pf initial_state trading_days_25 = (Inr out, initial_state)
     \<and> length (index out) = 5
     \<and> index out = [21, 22, 23, 24, 25]
     \<and> map_of (columns out) ''Close'' = Some (map Num [120, 121, 122, 123, 124])
     \<and> map_of (columns out) ''Volume'' = Some (replicate 5 (Num 1000)))"
proof
  fix pf :: float_reader
  show "\<exists>out. process_data pf initial_state trading_days_25 = (Inr out, initial_state)
     \<and> length (index out) = 5
     \<and> index out = [21, 22, 23, 24, 25]
     \<and> map_of (columns out) ''Close'' = Some (map Num [120, 121, 122, 123, 124])
     \<and> map_of (columns out) ''Volume'' = Some (replicate 5 (Num 1000))"
  proof -
    from scenario_five_rows [OF complete_trading_days_25 close_trading_days_25, of pf initial_state]
    obtain out where run: "process_data pf initial_state trading_days_25 = (Inr out, initial_state)"
      and len: "length (index out) = 5"
      and idx: "index out = drop 20 (index trading_days_25)"
      and cols: "\<And>name c. name \<notin> set derived_fields \<Longrightarrow> map_of (columns trading_days_25) name = Some c
                   \<Longrightarrow> map_of (columns out) name = Some (drop 20 c)"
      by blast
    have "index out = [21, 22, 23, 24, 25]"
      by (simp add: idx trading_days_25_def drop_map upt_rec [of "numeral _"])
    moreover have "map_of (columns out) ''Close'' = Some (drop 20 (map Num closes))"
      by (rule cols) (simp_all add: derived_fields_def trading_days_25_def)
    then have "map_of (columns out) ''Close'' = Some (map Num [120, 121, 122, 123, 124])"
      by (simp add: closes_def drop_map upt_rec [of "numeral _"])
    moreover have "map_of (columns out) ''Volume'' = Some (drop 20 (replicate 25 (Num 1000)))"
      by (rule cols) (simp_all add: derived_fields_def trading_days_25_def)
    then have "map_of (columns out) ''Volume'' = Some (replicate 5 (Num 1000))"
      by simp
    ultimately show ?thesis using run len by blast
  qed
qed

text \<open>
  C3 as stated fails: on the 25-day scenario \<open>process_data\<close> returns 5 rows, and no run
  of it returns 25 - 19 = 6.
\<close>

theorem scenario_not_six_rows:
  "\<forall>pf.
   ((\<exists>out. process_data pf initial_state trading_days_25 = (Inr out, initial_state)
      \<and> length (index out) = 5)
   \<and> \<not> (\<exists>out s'. process_data pf initial_state trading_days_25 = (Inr out, s')
      \<and> length (index out) = 25 - 19))"
proof
  fix pf :: float_reader
  show "(\<exists>out. process_data pf initial_state trading_days_25 = (Inr out, initial_state)
      \<and> length (index out) = 5)
   \<and> \<not> (\<exists>out s'. process_data pf initial_state trading_days_25 = (Inr out, s')
      \<and> length (index out) = 25 - 19)"
  proof -
    from process_data_complete [OF complete_trading_days_25 close_trading_days_25 closes_nonzero, of pf initial_state]
    obtain out where run: "process_data pf initial_state trading_days_25 = (Inr out, initial_state)"
      and idx: "index out = drop 20 (index trading_days_25)"
      by blast
    have "length (index out) = 5" by (simp add: idx trading_days_25_def)
    with run show ?thesis by auto
  qed
qed

text \<open>
  C4, as amended. On the same scenario the \<open>Daily_Return\<close> field of the output is not
  constant: it is 1/119, 1/120, 1/121, 1/122, 1/123 on the five output rows, strictly
  falling. The \<open>MA5\<close> field (118, ..., 122) and the \<open>MA20\<close> field (110.5, ..., 114.5) are
  both strictly rising across the output rows.
\<close>

theorem scenario_indicators:
  assumes "complete data" "map_of (columns data) ''Close'' = Some (map Num closes)"
  shows "\<exists>out. process_data pf s data = (Inr out, s)
     \<and> map_of (columns out) ''Daily_Return'' = Some (map Num [1/119, 1/120, 1/121, 1/122, 1/123])
     \<and> column_decreasing out ''Daily_Return''
     \<and> \<not> column_constant out ''Daily_Return''
     \<and> map_of (columns out) ''MA5'' = Some (map Num [118, 119, 120, 121, 122])
     \<and> column_increasing out ''MA5''
     \<and> map_of (columns out) ''MA20'' = Some (map Num [221/2, 223/2, 225/2, 227/2, 229/2])
     \<and> column_increasing out ''MA20''"
proof -
  from scenario_columns [OF assms, of pf s] obtain out where
    run: "process_data pf s data = (Inr out, s)"
    and dr: "map_of (columns out) ''Daily_Return'' = Some (map Num [1/119, 1/120, 1/121, 1/122, 1/123])"
    and ma5: "map_of (columns out) ''MA5'' = Some (map Num [118, 119, 120, 121, 122])"
    and ma20: "map_of (columns out) ''MA20'' = Some (map Num [221/2, 223/2, 225/2, 227/2, 229/2])"
    by blast
  have "column_decreasing out ''Daily_Return''" by (simp add: column_decreasing_def dr)
  moreover have "\<not> column_constant out ''Daily_Return''" by (simp add: column_constant_def dr)
  moreover have "column_increasing out ''MA5''" by (simp add: column_increasing_def ma5)
  moreover have "column_increasing out ''MA20''" by (simp add: column_increasing_def ma20)
  ultimately show ?thesis using run dr ma5 ma20 by blast
qed

theorem scenario_indicators_witness:
  "\<forall>pf.
   (\<exists>out. process_data pf initial_state trading_days_25 = (Inr out, initial_state)
     \<and> map_of (columns out) ''Daily_Return'' = Some (map Num [1/119, 1/120, 1/121, 1/122, 1/123])
     \<and> column_decreasing out ''Daily_Return''
     \<and> map_of (columns out) ''MA5'' = Some (map Num [118, 119, 120, 121, 122])
     \<and> column_increasing out ''MA5''
     \<and> map_of (columns out) ''MA20'' = Some (map Num [221/2, 223/2, 225/2, 227/2, 229/2])
     \<and> column_increasing out ''MA20'')"
proof
  fix pf :: float_reader
  show "\<exists>out. process_data pf initial_state trading_days_25 = (Inr out, initial_state)
     \<and> map_of (columns out) ''Daily_Return'' = Some (map Num [1/119, 1/120, 1/121, 1/122, 1/123])
     \<and> column_decreasing out ''Daily_Return''
     \<and> map_of (columns out) ''MA5'' = Some (map Num [118, 119, 120, 121, 122])
     \<and> column_increasing out ''MA5''
     \<and> map_of (columns out) ''MA20'' = Some (map Num [221/2, 223/2, 225/2, 227/2, 229/2])
     \<and> column_increasing out ''MA20''"
    using scenario_indicators [OF complete_trading_days_25 close_trading_days_25, of pf initial_state]
    by blast
qed

text \<open>
  C4 as stated fails: on the 25-day scenario the \<open>Daily_Return\<close> field of the output is not
  the same on every row.
\<close>

theorem scenario_return_not_constant:
  "\<forall>pf.
   (\<exists>out. process_data pf initial_state trading_days_25 = (Inr out, initial_state)
     \<and> map_of (columns out) ''Daily_Return'' = Some (map Num [1/119, 1/120, 1/121, 1/122, 1/123])
     \<and> \<not> column_constant out ''Daily_Return'')"
proof
  fix pf :: float_reader
  show "\<exists>out. process_data pf initial_state trading_days_25 = (Inr out, initial_state)
     \<and> map_of (columns out) ''Daily_Return'' = Some (map Num [1/119, 1/120, 1/121, 1/122, 1/123])
     \<and> \<not> column_constant out ''Daily_Return''"
  proof -
    from scenario_columns [OF complete_trading_days_25 close_trading_days_25, of pf initial_state]
    obtain out where
      run: "process_data pf initial_state trading_days_25 = (Inr out, initial_state)"
      and dr: "map_of (columns out) ''Daily_Return'' = Some (map Num [1/119, 1/120, 1/121, 1/122, 1/123])"
      by blast
    have "\<not> column_constant out ''Daily_Return''" by (simp add: column_constant_def dr)
    with run dr show ?thesis by blast
  qed
qed

text \<open>
  C1. For every ticker and \<open>days_back\<close>, \<open>run_pipeline\<close> returns a table exactly when
  \<open>fetch_stock_data\<close> returns that table and \<open>save_data\<close>, called next with that same raw
  table, succeeds; the file then holds the raw table, and the raw table is what is returned.
  When the fetch fails nothing is saved. \<open>process_data\<close> takes no part: the result is the
  fetched table also where \<open>process_data\<close> would change it.
\<close>

theorem run_pipeline_saves_raw:
  "(run_pipeline p self s ticker days_back = (Inr r, s') \<longleftrightarrow>
      (\<exists>s1. fetch_stock_data p s ticker days_back = (Inr r, s1)
         \<and> save_data self s1 r ticker = (Inr (), s')))
   \<and> (run_pipeline p self s ticker days_back = (Inr r, s') \<longrightarrow>
        files s' (csv_path self ticker) = Some r)
   \<and> (\<forall>e s1. fetch_stock_data p s ticker days_back = (Inl e, s1) \<longrightarrow>
        run_pipeline p self s ticker days_back = (Inl e, logger ERROR (PipelineFailed ticker e) s1)
        \<and> files (logger ERROR (PipelineFailed ticker e) s1) = files s)"
proof -
  have iff: "run_pipeline p self s ticker days_back = (Inr r, s') \<longleftrightarrow>
      (\<exists>s1. fetch_stock_data p s ticker days_back = (Inr r, s1)
         \<and> save_data self s1 r ticker = (Inr (), s'))"
    by (auto simp: run_pipeline_def split: prod.splits sum.splits)
  have saved: "files s' (csv_path self ticker) = Some r"
    if "run_pipeline p self s ticker days_back = (Inr r, s')"
    using that iff save_data_InrD(1) by blast
  have failed: "run_pipeline p self s ticker days_back = (Inl e, logger ERROR (PipelineFailed ticker e) s1)
        \<and> files (logger ERROR (PipelineFailed ticker e) s1) = files s"
    if "fetch_stock_data p s ticker days_back = (Inl e, s1)" for e s1
    using that fetch_files [OF that] by (simp add: run_pipeline_def)
  from iff saved failed show ?thesis by blast
qed

theorem run_pipeline_saves_raw_witness:
  "\<forall>pf.
   (\<exists>s'. run_pipeline (example_provider three_days (Inr PyNone)) default_processor ready_state ''AAPL'' 18
         = (Inr three_days, s')
     \<and> files s' [''stock_data'', ''AAPL_stock_data.csv''] = Some three_days
     \<and> process_data_body pf three_days \<noteq> Inr three_days)"
proof
  fix pf :: float_reader
  show "\<exists>s'. run_pipeline (example_provider three_days (Inr PyNone)) default_processor ready_state ''AAPL'' 18
         = (Inr three_days, s')
     \<and> files s' [''stock_data'', ''AAPL_stock_data.csv''] = Some three_days
     \<and> process_data_body pf three_days \<noteq> Inr three_days"
  proof -
    let ?p = "example_provider three_days (Inr PyNone)"
    let ?s1 = "logger INFO (Fetching ''AAPL'' 738982 739000) ready_state"
    have fetch: "fetch_stock_data ?p ready_state ''AAPL'' 18 = (Inr three_days, ?s1)"
      by (simp add: fetch_example)
    have "\<exists>s'. save_data default_processor ?s1 three_days ''AAPL'' = (Inr (), s')"
      by (simp add: save_data_def csv_path_default to_csv_def ready_state_def logger_def Let_def)
    then obtain s' where save: "save_data default_processor ?s1 three_days ''AAPL'' = (Inr (), s')"
      by blast
    from fetch save have run: "run_pipeline ?p default_processor ready_state ''AAPL'' 18 = (Inr three_days, s')"
      using run_pipeline_saves_raw [of ?p default_processor ready_state "''AAPL''" 18 three_days s']
      by blast
    then have "files s' (csv_path default_processor ''AAPL'') = Some three_days"
      using run_pipeline_saves_raw [of ?p default_processor ready_state "''AAPL''" 18 three_days s']
      by blast
    moreover have "process_data_body pf three_days \<noteq> Inr three_days"
    proof
      assume "process_data_body pf three_days = Inr three_days"
      from process_data_body_head [OF this] show False by (simp add: three_days_def)
    qed
    ultimately show ?thesis using run by (auto simp: csv_path_default)
  qed
qed

text \<open>
  C6, as amended. In every call of \<open>fetch_stock_data\<close> whose date arithmetic and history
  request succeed: when the analyst-target lookup raises, the call still succeeds and
  returns the provider's price series as it came, without a target field added; a warning
  is logged after the fetch message and the exception goes no further. When the lookup
  returns nothing (\<open>None\<close>), the call returns the same series as it came and logs no
  warning.
\<close>

theorem target_lookup_failure:
  assumes "timedelta days_back = Inr delta" "date_minus (today p) delta = Inr start"
    "history p ticker start (today p) = Inr hist"
  shows "(\<forall>e. target_mean_price p ticker = Inl e \<longrightarrow>
            (\<exists>s'. fetch_stock_data p s ticker days_back = (Inr hist, s')
               \<and> log s' = log s @ [(INFO, Fetching ticker start (today p)),
                                   (WARNING, CouldNotFetchTargets e)]))
       \<and> (target_mean_price p ticker = Inr PyNone \<longrightarrow>
            (\<exists>s'. fetch_stock_data p s ticker days_back = (Inr hist, s')
               \<and> log s' = log s @ [(INFO, Fetching ticker start (today p))]))"
  by (simp add: fetch_reached [OF assms])

theorem target_lookup_failure_witness:
  "(\<exists>s'. fetch_stock_data (example_provider three_days (Inl (ProviderError ''no info''))) initial_state ''AAPL'' 18
          = (Inr three_days, s')
      \<and> log s' = [(INFO, Fetching ''AAPL'' 738982 739000),
                   (WARNING, CouldNotFetchTargets (ProviderError ''no info''))])
   \<and> (\<exists>s'. fetch_stock_data (example_provider three_days (Inr PyNone)) initial_state ''AAPL'' 18
          = (Inr three_days, s')
      \<and> log s' = [(INFO, Fetching ''AAPL'' 738982 739000)])"
  using target_lookup_failure [OF example_dates(1-3), of three_days "Inl (ProviderError ''no info'')" "''AAPL''" initial_state]
    target_lookup_failure [OF example_dates(1-3), of three_days "Inr PyNone" "''AAPL''" initial_state]
  by (simp add: example_dates(4) initial_state_def) (simp add: example_provider_def)

text \<open>
  C6 as stated fails: when the lookup returns \<open>None\<close>, the fetch succeeds and the log
  holds no warning.
\<close>

theorem target_none_no_warning:
  "target_mean_price (example_provider three_days (Inr PyNone)) ''AAPL'' = Inr PyNone
   \<and> (\<exists>s'. fetch_stock_data (example_provider three_days (Inr PyNone)) initial_state ''AAPL'' 18
          = (Inr three_days, s')
      \<and> \<not> has_warning (log s'))"
  by (simp add: fetch_example example_dates(4) initial_state_def has_warning_def)

text \<open>
  C10. When the history request succeeds and the target lookup returns a value: if the
  value is falsy (\<open>None\<close>, \<open>0\<close>, \<open>0.0\<close>, also the empty string) the series is returned
  as the provider gave it, with no \<open>AnalystTargetPrice\<close> field added; if it is truthy the
  field is attached with that one value on every row, the index and the other fields being
  unchanged.
\<close>

theorem target_attached_when_truthy:
  assumes "timedelta days_back = Inr delta" "date_minus (today p) delta = Inr start"
    "history p ticker start (today p) = Inr hist"
    "target_mean_price p ticker = Inr v"
  shows "\<exists>out s'. fetch_stock_data p s ticker days_back = (Inr out, s')
     \<and> (v = PyNone \<or> v = PyInt 0 \<or> v = PyFloat 0 \<longrightarrow> out = hist)
     \<and> (\<not> truthy v \<longrightarrow> out = hist)
     \<and> (truthy v \<longrightarrow>
          index out = index hist
          \<and> map_of (columns out) ''AnalystTargetPrice''
              = Some (replicate (length (index hist)) (to_cell v))
          \<and> (\<forall>name. name \<noteq> ''AnalystTargetPrice'' \<longrightarrow>
                map_of (columns out) name = map_of (columns hist) name))"
proof (cases "truthy v")
  case True
  then have "v \<noteq> PyNone" "v \<noteq> PyInt 0" "v \<noteq> PyFloat 0" by auto
  with True show ?thesis
    by (simp add: fetch_reached [OF assms(1-3)] assms(4) map_of_set_scalar_same
        map_of_set_scalar_other [OF not_sym])
next
  case False
  then show ?thesis by (simp add: fetch_reached [OF assms(1-3)] assms(4))
qed

theorem target_attached_when_truthy_witness:
  "(\<exists>out s'. fetch_stock_data (example_provider three_days (Inr (PyFloat 250))) initial_state ''AAPL'' 18
          = (Inr out, s')
      \<and> index out = [1, 2, 3]
      \<and> map_of (columns out) ''AnalystTargetPrice'' = Some [Num 250, Num 250, Num 250]
      \<and> map_of (columns out) ''Close'' = Some [Num 10, Num 11, Num 12])
   \<and> (\<exists>s'. fetch_stock_data (example_provider three_days (Inr (PyFloat 0))) initial_state ''AAPL'' 18
          = (Inr three_days, s'))
   \<and> (\<exists>s'. fetch_stock_data (example_provider three_days (Inr (PyInt 0))) initial_state ''AAPL'' 18
          = (Inr three_days, s'))
   \<and> (\<exists>s'. fetch_stock_data (example_provider three_days (Inr PyNone)) initial_state ''AAPL'' 18
          = (Inr three_days, s'))"
proof -
  have a: "target_mean_price (example_provider three_days (Inr v)) ''AAPL'' = Inr v" for v
    by (simp add: example_dates(4))
  note t = target_attached_when_truthy [OF example_dates(1-3) a, of _ initial_state]
  have "\<exists>out s'. fetch_stock_data (example_provider three_days (Inr (PyFloat 250))) initial_state ''AAPL'' 18
          = (Inr out, s')
      \<and> index out = [1, 2, 3]
      \<and> map_of (columns out) ''AnalystTargetPrice'' = Some [Num 250, Num 250, Num 250]
      \<and> map_of (columns out) ''Close'' = Some [Num 10, Num 11, Num 12]"
    using t [of "PyFloat 250"] by (auto simp: three_days_def numeral_3_eq_3)
  moreover have "\<exists>s'. fetch_stock_data (example_provider three_days (Inr (PyFloat 0))) initial_state ''AAPL'' 18
          = (Inr three_days, s')"
    using t [of "PyFloat 0"] by auto
  moreover have "\<exists>s'. fetch_stock_data (example_provider three_days (Inr (PyInt 0))) initial_state ''AAPL'' 18
          = (Inr three_days, s')"
    using t [of "PyInt 0"] by auto
  moreover have "\<exists>s'. fetch_stock_data (example_provider three_days (Inr PyNone)) initial_state ''AAPL'' 18
          = (Inr three_days, s')"
    using t [of PyNone] by auto
  ultimately show ?thesis by blast
qed

text \<open>
  C7. When the provider returns a series with no row, \<open>fetch_stock_data\<close> returns a series
  with no row and raises nothing (whatever the target lookup does); and \<open>process_data\<close>
  applied to a well-formed series with no row (one that has its \<open>Close\<close> field) returns a
  series with no row and raises nothing.
\<close>

theorem empty_series_no_error:
  "(\<forall>delta start hist.
      timedelta days_back = Inr delta \<and> date_minus (today p) delta = Inr start
      \<and> history p ticker start (today p) = Inr hist \<and> index hist = [] \<longrightarrow>
      (\<exists>out s'. fetch_stock_data p s ticker days_back = (Inr out, s') \<and> index out = []
         \<and> (list_all (\<lambda>nc. snd nc = []) (columns hist) \<longrightarrow>
              list_all (\<lambda>nc. snd nc = []) (columns out))))
   \<and> (wf_df data \<and> index data = [] \<and> map_of (columns data) ''Close'' \<noteq> None \<longrightarrow>
      (\<exists>out. process_data pf s2 data = (Inr out, s2) \<and> index out = []
         \<and> list_all (\<lambda>nc. snd nc = []) (columns out)))"
proof -
  have fetch: "\<exists>out s'. fetch_stock_data p s ticker days_back = (Inr out, s') \<and> index out = []
         \<and> (list_all (\<lambda>nc. snd nc = []) (columns hist) \<longrightarrow>
              list_all (\<lambda>nc. snd nc = []) (columns out))"
    if h: "timedelta days_back = Inr delta" "date_minus (today p) delta = Inr start"
      "history p ticker start (today p) = Inr hist" and e: "index hist = []"
    for delta start hist
  proof (cases "target_mean_price p ticker")
    case (Inl x)
    then show ?thesis using e by (simp add: fetch_reached [OF h])
  next
    case (Inr v)
    then show ?thesis using e set_scalar_empty [OF e]
      by (simp add: fetch_reached [OF h])
  qed
  have process: "\<exists>out. process_data pf s2 data = (Inr out, s2) \<and> index out = []
         \<and> list_all (\<lambda>nc. snd nc = []) (columns out)"
    if wf: "wf_df data" and e: "index data = []" and c: "map_of (columns data) ''Close'' \<noteq> None"
  proof -
    from c obtain close where close: "map_of (columns data) ''Close'' = Some close" by blast
    from wf_df_column_length [OF wf close] e have "close = []" by simp
    then have "numeric close" by (simp add: numeric_def)
    from process_data_body_numeric [OF close this]
    obtain out where out: "process_data_body pf data = Inr out" by blast
    from process_data_body_short [OF out] e out show ?thesis
      by (simp add: process_data_def)
  qed
  from fetch process show ?thesis by blast
qed

theorem empty_series_no_error_witness:
  "\<forall>pf.
   ((\<exists>out s'. fetch_stock_data (example_provider empty_series (Inr (PyFloat 250))) initial_state ''GONE'' 18
       = (Inr out, s')
      \<and> index out = [] \<and> list_all (\<lambda>nc. snd nc = []) (columns out))
   \<and> (\<exists>out. process_data pf initial_state empty_series = (Inr out, initial_state) \<and> index out = []
      \<and> list_all (\<lambda>nc. snd nc = []) (columns out)))"
proof
  fix pf :: float_reader
  show "(\<exists>out s'. fetch_stock_data (example_provider empty_series (Inr (PyFloat 250))) initial_state ''GONE'' 18
       = (Inr out, s')
      \<and> index out = [] \<and> list_all (\<lambda>nc. snd nc = []) (columns out))
   \<and> (\<exists>out. process_data pf initial_state empty_series = (Inr out, initial_state) \<and> index out = []
      \<and> list_all (\<lambda>nc. snd nc = []) (columns out))"
  proof -
    have wf: "wf_df empty_series \<and> index empty_series = [] \<and> map_of (columns empty_series) ''Close'' \<noteq> None"
      by (simp add: wf_df_def empty_series_def)
    have h: "timedelta 18 = Inr 18
       \<and> date_minus (today (example_provider empty_series (Inr (PyFloat 250)))) 18 = Inr 738982
       \<and> history (example_provider empty_series (Inr (PyFloat 250))) ''GONE'' 738982
            (today (example_provider empty_series (Inr (PyFloat 250)))) = Inr empty_series
       \<and> index empty_series = []"
      by (simp add: example_dates) (simp add: empty_series_def)
    have cols: "list_all (\<lambda>nc. snd nc = []) (columns empty_series)"
      by (simp add: empty_series_def)
    note t = empty_series_no_error [of 18 "example_provider empty_series (Inr (PyFloat 250))" "''GONE''"
        initial_state empty_series pf initial_state]
    from t h cols have "\<exists>out s'. fetch_stock_data (example_provider empty_series (Inr (PyFloat 250))) initial_state ''GONE'' 18
         = (Inr out, s')
        \<and> index out = [] \<and> list_all (\<lambda>nc. snd nc = []) (columns out)"
      by blast
    moreover from t wf have "\<exists>out. process_data pf initial_state empty_series = (Inr out, initial_state) \<and> index out = []
        \<and> list_all (\<lambda>nc. snd nc = []) (columns out)"
      by blast
    ultimately show ?thesis by blast
  qed
qed




text \<open>
  C8, as amended. When the destination directory does not exist but its parent does,
  constructing the processor (\<open>__init__\<close>, not \<open>save_data\<close>) creates that one directory, and
  \<open>save_data\<close> then writes the file there (for a ticker without a slash, the path not being
  a directory). A missing parent is not created: construction then fails and changes
  nothing, with \<open>FileNotFoundError\<close> when no regular file stands above the directory and
  with \<open>NotADirectoryError\<close> when one does. \<open>save_data\<close> itself never creates a directory.
\<close>

theorem directory_created_one_level:
  "(path_of dir \<notin> dirs s \<and> path_of dir \<notin> dom (files s) \<and> butlast (path_of dir) \<in> dirs s
      \<and> CHR ''/'' \<notin> set ticker \<and> path_of dir @ [ticker @ ''_stock_data.csv''] \<notin> dirs s \<longrightarrow>
      (\<exists>s1 s2. init s dir = (Inr \<lparr>data_dir = path_of dir\<rparr>, s1)
          \<and> dirs s1 = insert (path_of dir) (dirs s)
          \<and> save_data \<lparr>data_dir = path_of dir\<rparr> s1 data ticker = (Inr (), s2)
          \<and> files s2 (path_of dir @ [ticker @ ''_stock_data.csv'']) = Some data
          \<and> dirs s2 = dirs s1))
   \<and> (path_of dir \<notin> dirs s \<and> path_of dir \<notin> dom (files s) \<and> butlast (path_of dir) \<notin> dirs s
        \<and> \<not> file_above s (path_of dir) \<longrightarrow>
        init s dir = (Inl (FileNotFoundError (path_of dir)), s))
   \<and> (path_of dir \<notin> dirs s \<and> path_of dir \<notin> dom (files s) \<and> butlast (path_of dir) \<notin> dirs s
        \<and> file_above s (path_of dir) \<longrightarrow>
        init s dir = (Inl (NotADirectoryError (path_of dir)), s))
   \<and> dirs (snd (save_data self s data ticker)) = dirs s"
proof -
  have made: "\<exists>s1 s2. init s dir = (Inr \<lparr>data_dir = path_of dir\<rparr>, s1)
          \<and> dirs s1 = insert (path_of dir) (dirs s)
          \<and> save_data \<lparr>data_dir = path_of dir\<rparr> s1 data ticker = (Inr (), s2)
          \<and> files s2 (path_of dir @ [ticker @ ''_stock_data.csv'']) = Some data
          \<and> dirs s2 = dirs s1"
    if h: "path_of dir \<notin> dirs s" "path_of dir \<notin> dom (files s)" "butlast (path_of dir) \<in> dirs s"
      "CHR ''/'' \<notin> set ticker" "path_of dir @ [ticker @ ''_stock_data.csv''] \<notin> dirs s"
  proof -
    let ?s1 = "s\<lparr>dirs := insert (path_of dir) (dirs s)\<rparr>"
    let ?self = "\<lparr>data_dir = path_of dir\<rparr>"
    have i: "init s dir = (Inr ?self, ?s1)"
      using h(1-3) by (simp add: init_def mkdir_exist_ok_def)
    have p: "csv_path ?self ticker = path_of dir @ [ticker @ ''_stock_data.csv'']"
      using h(4) by (simp add: csv_path_plain)
    have "\<exists>s2. save_data ?self ?s1 data ticker = (Inr (), s2)"
      using h(5) by (simp add: save_data_def p to_csv_def Let_def)
    then obtain s2 where sv: "save_data ?self ?s1 data ticker = (Inr (), s2)" by blast
    from save_data_InrD [OF sv] have "files s2 (path_of dir @ [ticker @ ''_stock_data.csv'']) = Some data"
      and "dirs s2 = dirs ?s1" by (simp_all add: p)
    with i sv show ?thesis by auto
  qed
  have missing: "init s dir = (Inl (FileNotFoundError (path_of dir)), s)"
    if "path_of dir \<notin> dirs s" "path_of dir \<notin> dom (files s)" "butlast (path_of dir) \<notin> dirs s"
      "\<not> file_above s (path_of dir)"
    using that by (simp add: init_def mkdir_exist_ok_def)
  have blocked: "init s dir = (Inl (NotADirectoryError (path_of dir)), s)"
    if "path_of dir \<notin> dirs s" "path_of dir \<notin> dom (files s)" "butlast (path_of dir) \<notin> dirs s"
      "file_above s (path_of dir)"
    using that by (simp add: init_def mkdir_exist_ok_def)
  from made missing blocked save_data_dirs show ?thesis by blast
qed

theorem directory_created_one_level_witness:
  "(\<exists>s1 s2. init initial_state ''stock_data'' = (Inr default_processor, s1)
      \<and> dirs s1 = {[], [''stock_data'']}
      \<and> save_data default_processor s1 three_days ''AAPL'' = (Inr (), s2)
      \<and> files s2 [''stock_data'', ''AAPL_stock_data.csv''] = Some three_days
      \<and> dirs s2 = dirs s1)
   \<and> init initial_state ''data/prices'' = (Inl (FileNotFoundError [''data'', ''prices'']), initial_state)
   \<and> init file_state ''data/prices'' = (Inl (NotADirectoryError [''data'', ''prices'']), file_state)"
proof -
  note t = directory_created_one_level [of _ initial_state "''AAPL''" three_days default_processor]
  have "path_of ''stock_data'' \<notin> dirs initial_state \<and> path_of ''stock_data'' \<notin> dom (files initial_state)
      \<and> butlast (path_of ''stock_data'') \<in> dirs initial_state
      \<and> CHR ''/'' \<notin> set ''AAPL''
      \<and> path_of ''stock_data'' @ [''AAPL'' @ ''_stock_data.csv''] \<notin> dirs initial_state"
    by (simp add: path_of_stock_data initial_state_def)
  with t [of "''stock_data''"] have made: "\<exists>s1 s2. init initial_state ''stock_data'' = (Inr default_processor, s1)
      \<and> dirs s1 = {[], [''stock_data'']}
      \<and> save_data default_processor s1 three_days ''AAPL'' = (Inr (), s2)
      \<and> files s2 [''stock_data'', ''AAPL_stock_data.csv''] = Some three_days
      \<and> dirs s2 = dirs s1"
    by (simp add: path_of_stock_data default_processor_def initial_state_def insert_commute)
  have "path_of ''data/prices'' \<notin> dirs initial_state
      \<and> path_of ''data/prices'' \<notin> dom (files initial_state)
      \<and> butlast (path_of ''data/prices'') \<notin> dirs initial_state
      \<and> \<not> file_above initial_state (path_of ''data/prices'')"
    by (simp add: path_of_nested initial_state_def file_above_def)
  with t [of "''data/prices''"]
  have missing: "init initial_state ''data/prices''
      = (Inl (FileNotFoundError [''data'', ''prices'']), initial_state)"
    by (simp add: path_of_nested)
  have "path_of ''data/prices'' \<notin> dirs file_state
      \<and> path_of ''data/prices'' \<notin> dom (files file_state)
      \<and> butlast (path_of ''data/prices'') \<notin> dirs file_state
      \<and> file_above file_state (path_of ''data/prices'')"
    by (simp add: path_of_nested file_state_def file_above_def)
  with directory_created_one_level [of "''data/prices''" file_state "''AAPL''" three_days default_processor]
  have blocked: "init file_state ''data/prices''
      = (Inl (NotADirectoryError [''data'', ''prices'']), file_state)"
    by (simp add: path_of_nested)
  from made missing blocked show ?thesis by (intro conjI)
qed

text \<open>
  C8 as stated fails: with the parent \<open>data\<close> missing, constructing the processor on
  \<open>data/prices\<close> raises \<open>FileNotFoundError\<close> and creates nothing; and \<open>save_data\<close> on a
  processor whose directory is not there fails without creating it.
\<close>

theorem missing_parent_not_created:
  "[''data''] \<notin> dirs initial_state
   \<and> init initial_state ''data/prices'' = (Inl (FileNotFoundError [''data'', ''prices'']), initial_state)
   \<and> [''stock_data''] \<notin> dirs initial_state
   \<and> fst (save_data default_processor initial_state three_days ''AAPL'')
       = Inl (OSError [''stock_data'', ''AAPL_stock_data.csv''])
   \<and> dirs (snd (save_data default_processor initial_state three_days ''AAPL'')) = dirs initial_state"
  by (simp add: init_def mkdir_exist_ok_def path_of_nested initial_state_def save_data_def
      csv_path_default to_csv_def Let_def file_above_def)

text \<open>
  C9. For every well-formed series of numeric fields, once \<open>save_data\<close> has written it,
  reading the text of the written file back gives a table equal to the series: the same
  fields with the same values, and the leading date column gives back the index, the
  original dates in their order. The text and the reader are modelled from the
  specification and the library's documentation, field by field (what a field spells, not
  how a float or a date is printed).
\<close>

theorem save_then_read_back:
  assumes "wf_df data" "list_all (\<lambda>nc. numeric (snd nc)) (columns data)"
    "save_data self s data ticker = (Inr u, s')"
  shows "\<exists>table back. files s' (csv_path self ticker) = Some table
           \<and> read_csv (csv_text table) = Some back
           \<and> index back = index data \<and> columns back = columns data \<and> back = data"
  using save_data_InrD(1) [OF assms(3)] read_csv_csv_text [OF assms(1,2)] by simp

theorem save_then_read_back_witness:
  "wf_df trading_days_25 \<and> list_all (\<lambda>nc. numeric (snd nc)) (columns trading_days_25)
   \<and> (\<exists>s' table. save_data default_processor ready_state trading_days_25 ''AAPL'' = (Inr (), s')
         \<and> files s' [''stock_data'', ''AAPL_stock_data.csv''] = Some table
         \<and> read_csv (csv_text table) = Some trading_days_25)"
proof -
  have wf: "wf_df trading_days_25"
    by (simp add: wf_df_def trading_days_25_def length_closes)
  have num: "list_all (\<lambda>nc. numeric (snd nc)) (columns trading_days_25)"
    by (simp add: trading_days_25_def numeric_def is_str_def list_all_iff)
  have "\<exists>s'. save_data default_processor ready_state trading_days_25 ''AAPL'' = (Inr (), s')"
    by (simp add: save_data_def csv_path_default to_csv_def ready_state_def Let_def)
  then obtain s' where sv: "save_data default_processor ready_state trading_days_25 ''AAPL'' = (Inr (), s')"
    by blast
  from save_then_read_back [OF wf num sv]
  have "\<exists>table. files s' [''stock_data'', ''AAPL_stock_data.csv''] = Some table
      \<and> read_csv (csv_text table) = Some trading_days_25"
    by (auto simp: csv_path_default)
  with wf num sv show ?thesis by blast
qed

end
